theory Spec2Isabelle
  imports Complex_Main "HOL-Library.Word"
begin

section \<open>Python strings\<close>

text \<open>
  A Python \<open>str\<close> is a \<open>string\<close> (a list of characters). The helpers below are the
  string methods the proxy uses, each named after the method it stands for.
\<close>

definition startswith :: "string \<Rightarrow> string \<Rightarrow> bool" where
  "startswith s p = (take (length p) s = p)"

definition endswith :: "string \<Rightarrow> string \<Rightarrow> bool" where
  "endswith s p = (length p \<le> length s \<and> drop (length s - length p) s = p)"

text \<open>\<open>s.split(c)[0]\<close> and the two halves of \<open>s.split(c, 1)\<close> when \<open>c\<close> occurs in \<open>s\<close>.\<close>

definition before_first :: "char \<Rightarrow> string \<Rightarrow> string" where
  "before_first c s = takeWhile (\<lambda>x. x \<noteq> c) s"

definition after_first :: "char \<Rightarrow> string \<Rightarrow> string" where
  "after_first c s = drop 1 (dropWhile (\<lambda>x. x \<noteq> c) s)"

text \<open>The characters below 256 for which \<open>str.isspace\<close> holds; \<open>str.strip()\<close> removes them
  from both ends.\<close>

definition is_space :: "char \<Rightarrow> bool" where
  "is_space c = (c \<in> set [CHR 0x09, CHR 0x0A, CHR 0x0B, CHR 0x0C, CHR 0x0D,
     CHR 0x1C, CHR 0x1D, CHR 0x1E, CHR 0x1F, CHR 0x20, CHR 0x85, CHR 0xA0])"

definition strip :: "string \<Rightarrow> string" where
  "strip s = rev (dropWhile is_space (rev (dropWhile is_space s)))"

section \<open>Cookie jar (\<open>app/core/cookie_manager.py\<close>)\<close>

text \<open>
  A Python \<open>dict\<close> of strings keeps insertion order: assigning to a key that is present
  replaces the value in place, assigning to a new key appends.
\<close>

type_synonym cookies = "(string \<times> string) list"

fun dict_set :: "cookies \<Rightarrow> string \<Rightarrow> string \<Rightarrow> cookies" where
  "dict_set [] k v = [(k, v)]"
| "dict_set ((k', v') # d) k v =
     (if k' = k then (k, v) # d else (k', v') # dict_set d k v)"

text \<open>\<open>existing.update(new)\<close>: every item of \<open>new\<close>, in order, is assigned into \<open>existing\<close>.\<close>

fun dict_update :: "cookies \<Rightarrow> cookies \<Rightarrow> cookies" where
  "dict_update d [] = d"
| "dict_update d ((k, v) # e) = dict_update (dict_set d k v) e"

text \<open>The body of the loop of \<open>store_cookies\<close> over the \<open>Set-Cookie\<close> values: the
  \<open>(name, value)\<close> one header assigns into the dict \<open>cookies\<close>, if it assigns any.\<close>

definition parse_set_cookie :: "string \<Rightarrow> (string \<times> string) option" where
  "parse_set_cookie set_cookie =
     (let cookie_pair = strip (before_first CHR '';'' set_cookie) in
      if CHR ''='' \<in> set cookie_pair
      then Some (strip (before_first CHR ''='' cookie_pair),
                 strip (after_first CHR ''='' cookie_pair))
      else None)"

fun parse_set_cookies :: "cookies \<Rightarrow> string list \<Rightarrow> cookies" where
  "parse_set_cookies acc [] = acc"
| "parse_set_cookies acc (set_cookie # rest) =
     (case parse_set_cookie set_cookie of
        Some (name, val) \<Rightarrow> parse_set_cookies (dict_set acc name val) rest
      | None \<Rightarrow> parse_set_cookies acc rest)"

text \<open>
  The \<open>cookie_jars\<close> table. A row is found by \<open>(site_id, session_id, origin_host)\<close>; its
  nullable \<open>cookie_data\<close> column holds text that \<open>json.loads\<close> either decodes to a dict
  (\<open>Json_dict\<close>, what \<open>json.dumps\<close> of a dict of strings gives back) or rejects with
  \<open>JSONDecodeError\<close> (\<open>Not_json\<close>, the empty text included).
\<close>

datatype cookie_data = Json_dict cookies | Not_json

type_synonym jar_key = "int \<times> string \<times> string"

type_synonym cookie_db = "jar_key \<rightharpoonup> cookie_data option"

definition existing_cookies :: "cookie_data option \<Rightarrow> cookies" where
  "existing_cookies col = (case col of Some (Json_dict d) \<Rightarrow> d | _ \<Rightarrow> [])"

definition store_cookies :: "cookie_db \<Rightarrow> int \<Rightarrow> string \<Rightarrow> string \<Rightarrow> string list \<Rightarrow> cookie_db" where
  "store_cookies db site_id session_id origin_host set_cookie_headers =
     (if set_cookie_headers = [] then db
      else let cookies = parse_set_cookies [] set_cookie_headers in
        if cookies = [] then db
        else (case db (site_id, session_id, origin_host) of
                Some col \<Rightarrow>
                  db((site_id, session_id, origin_host) \<mapsto>
                       Some (Json_dict (dict_update (existing_cookies col) cookies)))
              | None \<Rightarrow>
                  db((site_id, session_id, origin_host) \<mapsto> Some (Json_dict cookies))))"

definition get_cookies :: "cookie_db \<Rightarrow> int \<Rightarrow> string \<Rightarrow> string \<Rightarrow> cookies" where
  "get_cookies db site_id session_id origin_host =
     (case db (site_id, session_id, origin_host) of
        None \<Rightarrow> []
      | Some col \<Rightarrow> existing_cookies col)"

section \<open>Errors\<close>

text \<open>The exceptions of the standard library that the modelled code can meet; a
  \<open>ValueError\<close> with its message.\<close>

datatype error = ValueError string | TypeError

section \<open>Session manager (\<open>app/core/session_manager.py\<close>)\<close>

text \<open>
  \<open>hmac.new(key.encode('utf-8'), msg.encode('utf-8'), hashlib.sha256).digest()\<close> is the
  parameter \<open>mac key msg\<close> of this section: the digest as a string of bytes. The
  \<open>hexdigest\<close> writes every byte as two lower-case hexadecimal digits.
\<close>

definition hexdigit :: "nat \<Rightarrow> char" where
  "hexdigit n = ''0123456789abcdef'' ! n"

definition hex_of_byte :: "char \<Rightarrow> string" where
  "hex_of_byte c = [hexdigit (of_char c div 16), hexdigit (of_char c mod 16)]"

definition hexdigest :: "string \<Rightarrow> string" where
  "hexdigest digest = concat (map hex_of_byte digest)"

text \<open>\<open>s.rsplit(c, 1)\<close> of a string that holds \<open>c\<close>: the text before the last \<open>c\<close> and the
  text after it.\<close>

definition before_last :: "char \<Rightarrow> string \<Rightarrow> string" where
  "before_last c s = rev (drop 1 (dropWhile (\<lambda>x. x \<noteq> c) (rev s)))"

definition after_last :: "char \<Rightarrow> string \<Rightarrow> string" where
  "after_last c s = rev (takeWhile (\<lambda>x. x \<noteq> c) (rev s))"

definition is_ascii :: "char \<Rightarrow> bool" where
  "is_ascii c = ((of_char c :: nat) < 128)"

text \<open>\<open>hmac.compare_digest\<close> on two \<open>str\<close>: a \<open>TypeError\<close> unless both are ASCII.\<close>

definition compare_digest :: "string \<Rightarrow> string \<Rightarrow> error + bool" where
  "compare_digest a b =
     (if list_all is_ascii a \<and> list_all is_ascii b then Inr (a = b) else Inl TypeError)"

definition sign_session_id :: "(string \<Rightarrow> string \<Rightarrow> string) \<Rightarrow> string \<Rightarrow> string \<Rightarrow> string" where
  "sign_session_id mac secret_key session_id =
     session_id @ ''.'' @ hexdigest (mac secret_key session_id)"

text \<open>The \<open>try\<close> block of \<open>verify_session_id\<close>; the \<open>except Exception\<close> turns the
  \<open>TypeError\<close> of the comparison into \<open>None\<close>.\<close>

definition verify_session_id :: "(string \<Rightarrow> string \<Rightarrow> string) \<Rightarrow> string \<Rightarrow> string \<Rightarrow> string option" where
  "verify_session_id mac secret_key signed_session_id =
     (if CHR ''.'' \<notin> set signed_session_id then None
      else let session_id = before_last CHR ''.'' signed_session_id;
               provided_signature = after_last CHR ''.'' signed_session_id;
               expected_signature = hexdigest (mac secret_key session_id)
           in (case compare_digest expected_signature provided_signature of
                 Inr True \<Rightarrow> Some session_id
               | Inr False \<Rightarrow> None
               | Inl e \<Rightarrow> None))"

text \<open>Minting: \<open>token\<close> is what \<open>generate_session_id\<close> (\<open>secrets.token_urlsafe(32)\<close>) drew.\<close>

definition create_signed_session_cookie :: "(string \<Rightarrow> string \<Rightarrow> string) \<Rightarrow> string \<Rightarrow> string \<Rightarrow> string" where
  "create_signed_session_cookie mac secret_key token = sign_session_id mac secret_key token"

text \<open>A 32-byte stand-in for the MAC, to run the session functions on concrete strings.\<close>

definition pad_mac :: "string \<Rightarrow> string \<Rightarrow> string" where
  "pad_mac k m = take 32 (k @ m @ replicate 32 CHR ''x'')"

section \<open>Rate limiter (\<open>app/core/rate_limiter.py\<close>)\<close>

text \<open>
  \<open>InMemoryRateLimiter\<close>: the two settings and the \<open>request_log\<close>, a dict from client IP
  to the list of admission times. \<open>time.time()\<close> is the argument \<open>current_time\<close> of the
  two methods, a real number of seconds; the methods return their result and, where
  they assign to the log, the limiter after the call.
\<close>

record rate_limiter =
  max_requests :: int
  window_seconds :: int
  request_log :: "string \<rightharpoonup> real list"

definition is_allowed :: "rate_limiter \<Rightarrow> real \<Rightarrow> string \<Rightarrow> (bool \<times> int) \<times> rate_limiter" where
  "is_allowed self current_time client_ip =
     (let cutoff_time = current_time - real_of_int (window_seconds self);
          requests = (case request_log self client_ip of None \<Rightarrow> [] | Some l \<Rightarrow> l);
          kept = filter (\<lambda>ts. ts > cutoff_time) requests;
          current_count = int (length kept)
      in if current_count \<ge> max_requests self
         then ((False, 0), self\<lparr>request_log := (request_log self)(client_ip \<mapsto> kept)\<rparr>)
         else ((True, max_requests self - (current_count + 1)),
               self\<lparr>request_log := (request_log self)(client_ip \<mapsto> kept @ [current_time])\<rparr>))"

text \<open>\<open>int(x)\<close> of a float: the integer part, rounding towards zero.\<close>

definition py_int :: "real \<Rightarrow> int" where
  "py_int x = (if 0 \<le> x then \<lfloor>x\<rfloor> else \<lceil>x\<rceil>)"

definition get_retry_after :: "rate_limiter \<Rightarrow> real \<Rightarrow> string \<Rightarrow> int" where
  "get_retry_after self current_time client_ip =
     (case request_log self client_ip of
        None \<Rightarrow> 0
      | Some [] \<Rightarrow> 0
      | Some (r # rs) \<Rightarrow>
          (let oldest_request = fold min rs r;
               retry_after = real_of_int (window_seconds self) - (current_time - oldest_request)
           in max 0 (py_int retry_after)))"

text \<open>
  A run of the limiter: the calls \<open>is_allowed(client_ip)\<close> in the order the lock serves
  them, each with the time it read. \<open>run\<close> is the limiter after the calls, \<open>admitted\<close>
  the calls that returned \<open>True\<close>.
\<close>

fun run :: "rate_limiter \<Rightarrow> (real \<times> string) list \<Rightarrow> rate_limiter" where
  "run self [] = self"
| "run self ((current_time, client_ip) # calls) =
     run (snd (is_allowed self current_time client_ip)) calls"

fun admitted :: "rate_limiter \<Rightarrow> (real \<times> string) list \<Rightarrow> (real \<times> string) list" where
  "admitted self [] = []"
| "admitted self ((current_time, client_ip) # calls) =
     (if fst (fst (is_allowed self current_time client_ip))
      then (current_time, client_ip) # admitted (snd (is_allowed self current_time client_ip)) calls
      else admitted (snd (is_allowed self current_time client_ip)) calls)"

text \<open>\<open>self.request_log.get(client_ip, [])\<close>.\<close>

definition stored :: "rate_limiter \<Rightarrow> string \<Rightarrow> real list" where
  "stored self client_ip = (case request_log self client_ip of None \<Rightarrow> [] | Some l \<Rightarrow> l)"

section \<open>Domain mapping (\<open>app/core/domain_mapping.py\<close>)\<close>

text \<open>\<open>mirror_host[:-len(suffix)]\<close> is \<open>take (length mirror_host - length suffix) mirror_host\<close>:
  the slice is empty when the suffix is the longer one, as the difference of naturals is.\<close>

definition map_mirror_host_to_origin_host :: "string \<Rightarrow> string \<Rightarrow> string \<Rightarrow> string" where
  "map_mirror_host_to_origin_host mirror_host mirror_root source_root =
     (if mirror_host = mirror_root then source_root
      else let suffix = ''.'' @ mirror_root in
        if endswith mirror_host suffix
        then (let subdomain = take (length mirror_host - length suffix) mirror_host
              in subdomain @ ''.'' @ source_root)
        else mirror_host)"

section \<open>Forward mapping (\<open>app/core/url_utils.py\<close>)\<close>

definition is_encoded_external_domain :: "string \<Rightarrow> bool" where
  "is_encoded_external_domain path_segment =
     (CHR ''.'' \<in> set path_segment \<and> CHR '' '' \<notin> set path_segment)"

text \<open>\<open>s.lstrip(c)\<close> and \<open>s.split(c, 1)\<close>, the latter a list of one or two strings.\<close>

definition lstrip_char :: "char \<Rightarrow> string \<Rightarrow> string" where
  "lstrip_char c s = dropWhile (\<lambda>x. x = c) s"

definition split_once :: "char \<Rightarrow> string \<Rightarrow> string list" where
  "split_once c s = (if c \<in> set s then [before_first c s, after_first c s] else [s])"

text \<open>\<open>mirror_root\<close> is the optional argument (\<open>None\<close> by default); \<open>if mirror_root:\<close> holds
  for a string that is not empty.\<close>

definition build_origin_url :: "string \<Rightarrow> string \<Rightarrow> string \<Rightarrow> string option \<Rightarrow> string" where
  "build_origin_url mirror_host mirror_path0 site_source_root mirror_root =
     (let mirror_path = (if startswith mirror_path0 ''/'' then mirror_path0 else ''/'' @ mirror_path0);
          path_parts = split_once CHR ''/'' (lstrip_char CHR ''/'' mirror_path);
          origin_host = (case mirror_root of
                           Some r \<Rightarrow> if r \<noteq> [] then map_mirror_host_to_origin_host mirror_host r site_source_root
                                     else site_source_root
                         | None \<Rightarrow> site_source_root)
      in if path_parts = [] \<or> path_parts ! 0 = []
         then ''https://'' @ origin_host @ ''/''
         else let first_segment = path_parts ! 0;
                  remaining_path = (if length path_parts > 1 then ''/'' @ path_parts ! 1 else ''/'')
              in if is_encoded_external_domain first_segment
                 then (if remaining_path = ''/'' then ''https://'' @ first_segment @ ''/''
                       else ''https://'' @ first_segment @ remaining_path)
                 else ''https://'' @ origin_host @ mirror_path)"

definition encode_external_url_for_mirror :: "string \<Rightarrow> string \<Rightarrow> string \<Rightarrow> string" where
  "encode_external_url_for_mirror mirror_root external_host external_path0 =
     (let external_path = (if startswith external_path0 ''/'' then external_path0
                           else ''/'' @ external_path0)
      in ''/'' @ external_host @ external_path)"

section \<open>\<open>ipaddress\<close>: addresses from strings\<close>

text \<open>
  The standard library's address parsers, as CPython 3.11.10 has them. \<open>IPv4Address\<close> is
  the integer of a dotted quad, or \<open>None\<close> for the \<open>AddressValueError\<close>. Of \<open>IPv6Address\<close>
  only whether it returns is computed, in \<open>valid_IPv6Address\<close>: no caller here reads the
  address.
\<close>

text \<open>\<open>str.split(sep)\<close> with a separator of one character.\<close>

fun split_all :: "char \<Rightarrow> string \<Rightarrow> string list" where
  "split_all c [] = [[]]"
| "split_all c (x # xs) =
     (let r = split_all c xs in if x = c then [] # r else (x # hd r) # tl r)"

definition is_ascii_digit :: "char \<Rightarrow> bool" where
  "is_ascii_digit c = (let n = (of_char c :: nat) in 48 \<le> n \<and> n \<le> 57)"

text \<open>\<open>int(s, 10)\<close> on a string of ASCII digits.\<close>

definition int_of_digits :: "string \<Rightarrow> nat" where
  "int_of_digits s = foldl (\<lambda>acc c. 10 * acc + ((of_char c :: nat) - 48)) 0 s"

definition parse_octet :: "string \<Rightarrow> nat option" where
  "parse_octet octet_str =
     (if octet_str = [] then None
      else if \<not> list_all is_ascii_digit octet_str then None
      else if length octet_str > 3 then None
      else if octet_str \<noteq> ''0'' \<and> hd octet_str = CHR ''0'' then None
      else if int_of_digits octet_str > 255 then None
      else Some (int_of_digits octet_str))"

definition IPv4Address :: "string \<Rightarrow> nat option" where
  "IPv4Address addr_str =
     (if CHR ''/'' \<in> set addr_str then None
      else if addr_str = [] then None
      else let octets = split_all CHR ''.'' addr_str
           in if length octets \<noteq> 4 then None
              else if list_all (\<lambda>octet. parse_octet octet \<noteq> None) octets
                   then Some (foldl (\<lambda>acc octet. 256 * acc + the (parse_octet octet)) 0 octets)
                   else None)"

text \<open>\<open>'%x' % n\<close>.\<close>

function hex_str :: "nat \<Rightarrow> string" where
  "hex_str n =
     (if n < 16 then [''0123456789abcdef'' ! n]
      else hex_str (n div 16) @ [''0123456789abcdef'' ! (n mod 16)])"
  by pat_completeness auto
termination
  by (relation "measure id") auto

definition is_hex_digit :: "char \<Rightarrow> bool" where
  "is_hex_digit c = (c \<in> set ''0123456789ABCDEFabcdef'')"

text \<open>\<open>_parse_hextet\<close> returns: hexadecimal digits only, four at most, and one at least
  (\<open>int('', 16)\<close> is a \<open>ValueError\<close>).\<close>

definition valid_hextet :: "string \<Rightarrow> bool" where
  "valid_hextet hextet_str =
     (list_all is_hex_digit hextet_str \<and> length hextet_str \<le> 4 \<and> hextet_str \<noteq> [])"

text \<open>\<open>_BaseV6._ip_int_from_string\<close> returns. \<open>empties\<close> are the indices, ends apart, of
  the empty parts: more than one is an error, one is the \<open>skip_index\<close>.\<close>

definition valid_ipv6_string :: "string \<Rightarrow> bool" where
  "valid_ipv6_string ip_str =
     (if ip_str = [] then False
      else let parts0 = split_all CHR '':'' ip_str
           in if length parts0 < 3 then False
              else if CHR ''.'' \<in> set (last parts0) \<and> IPv4Address (last parts0) = None then False
              else let parts =
                         (if CHR ''.'' \<in> set (last parts0)
                          then (let ipv4_int = the (IPv4Address (last parts0))
                                in butlast parts0 @ [hex_str ((ipv4_int div 65536) mod 65536),
                                                     hex_str (ipv4_int mod 65536)])
                          else parts0);
                       empties = filter (\<lambda>i. parts ! i = []) [1 ..< length parts - 1]
                   in if length parts > 9 then False
                      else if length empties > 1 then False
                      else if empties \<noteq> []
                      then (let skip_index = hd empties;
                                parts_hi0 = skip_index;
                                parts_lo0 = length parts - skip_index - 1;
                                parts_hi = (if hd parts = [] then parts_hi0 - 1 else parts_hi0);
                                parts_lo = (if last parts = [] then parts_lo0 - 1 else parts_lo0)
                            in if hd parts = [] \<and> parts_hi \<noteq> 0 then False
                               else if last parts = [] \<and> parts_lo \<noteq> 0 then False
                               else if 8 < parts_hi + parts_lo + 1 then False
                               else list_all valid_hextet (take parts_hi parts) \<and>
                                    list_all valid_hextet (drop (length parts - parts_lo) parts))
                      else if length parts \<noteq> 8 then False
                      else if hd parts = [] then False
                      else if last parts = [] then False
                      else list_all valid_hextet parts)"

text \<open>\<open>IPv6Address(address)\<close> returns: no \<open>/\<close>, a scope after \<open>%\<close> that is neither empty nor
  holds another \<open>%\<close>, and an address before it.\<close>

definition valid_IPv6Address :: "string \<Rightarrow> bool" where
  "valid_IPv6Address address =
     (if CHR ''/'' \<in> set address then False
      else let addr = before_first CHR ''%'' address;
               sep = (CHR ''%'' \<in> set address);
               scope_id = after_first CHR ''%'' address
           in if sep \<and> (scope_id = [] \<or> CHR ''%'' \<in> set scope_id) then False
              else valid_ipv6_string addr)"

section \<open>\<open>urllib.parse.urlparse\<close>\<close>

text \<open>
  The standard library's parser, as CPython 3.11.10 has it, on strings of characters
  below 256: leading control characters and spaces are dropped and tab, carriage return
  and line feed are removed everywhere; the scheme is the text before the first \<open>:\<close>
  when it starts with an ASCII letter and holds scheme characters only; after \<open>//\<close> the
  network location runs to the first of \<open>/ ? #\<close>; then the fragment, the query and, for
  the schemes that have them, the parameters of the last path segment are split off.
  A square bracket without its partner is the \<open>ValueError\<close> "Invalid IPv6 URL"; a text
  between brackets that \<open>_check_bracketed_host\<close> refuses is a \<open>ValueError\<close> too. \<open>_checknetloc\<close> never
  raises on characters below 256: none of them normalises (NFKC) to one of \<open>/ ? # @ :\<close>.
\<close>

definition lower_char :: "char \<Rightarrow> char" where
  "lower_char c =
     (let n = (of_char c :: nat)
      in if (65 \<le> n \<and> n \<le> 90) \<or> (192 \<le> n \<and> n \<le> 222 \<and> n \<noteq> 215) then char_of (n + 32) else c)"

definition lower :: "string \<Rightarrow> string" where
  "lower s = map lower_char s"

definition is_ascii_alpha :: "char \<Rightarrow> bool" where
  "is_ascii_alpha c =
     (let n = (of_char c :: nat) in (65 \<le> n \<and> n \<le> 90) \<or> (97 \<le> n \<and> n \<le> 122))"

definition is_scheme_char :: "char \<Rightarrow> bool" where
  "is_scheme_char c =
     (let n = (of_char c :: nat)
      in is_ascii_alpha c \<or> (48 \<le> n \<and> n \<le> 57) \<or> c = CHR ''+'' \<or> c = CHR ''-'' \<or> c = CHR ''.'')"

record parse_result =
  scheme :: string
  netloc :: string
  path :: string
  params :: string
  query :: string
  fragment :: string

definition uses_params :: "string list" where
  "uses_params = ['''', ''ftp'', ''hdl'', ''prospero'', ''http'', ''imap'', ''https'', ''shttp'',
     ''rtsp'', ''rtspu'', ''sip'', ''sips'', ''mms'', ''sftp'', ''tel'']"

text \<open>\<open>_splitparams\<close>: the parameters start at the first \<open>;\<close> of the last path segment.\<close>

definition splitparams :: "string \<Rightarrow> string \<times> string" where
  "splitparams url =
     (if CHR ''/'' \<in> set url
      then (let last_segment = after_last CHR ''/'' url
            in if CHR '';'' \<in> set last_segment
               then (before_last CHR ''/'' url @ ''/'' @ before_first CHR '';'' last_segment,
                     after_first CHR '';'' last_segment)
               else (url, ''''))
      else (before_first CHR '';'' url, after_first CHR '';'' url))"

text \<open>\<open>repr\<close> of a string of characters below 256: in single quotes, or in double quotes
  when it holds a single quote and no double one; the quote and the backslash escaped,
  the characters that are not printable written \<open>\t\<close>, \<open>\n\<close>, \<open>\r\<close> or \<open>\xhh\<close>.\<close>

definition repr_char :: "char \<Rightarrow> char \<Rightarrow> string" where
  "repr_char quote c =
     (let n = (of_char c :: nat)
      in if c = quote \<or> c = CHR 0x5C then [CHR 0x5C, c]
         else if c = CHR 0x09 then [CHR 0x5C, CHR ''t'']
         else if c = CHR 0x0A then [CHR 0x5C, CHR ''n'']
         else if c = CHR 0x0D then [CHR 0x5C, CHR ''r'']
         else if n < 32 \<or> (127 \<le> n \<and> n \<le> 160) \<or> n = 173 then [CHR 0x5C, CHR ''x''] @ hex_of_byte c
         else [c])"

definition repr :: "string \<Rightarrow> string" where
  "repr s =
     (let quote = (if CHR 0x27 \<in> set s \<and> CHR 0x22 \<notin> set s then CHR 0x22 else CHR 0x27)
      in [quote] @ concat (map (repr_char quote) s) @ [quote])"

text \<open>The match of \<open>\Av[a-fA-F0-9]+\..+\Z\<close>: after the \<open>v\<close> a run of hexadecimal digits, not
  empty, a dot, and at least one more character, none of them a line feed.\<close>

definition ipvfuture_match :: "string \<Rightarrow> bool" where
  "ipvfuture_match hostname =
     (startswith hostname ''v'' \<and>
      (let digits = takeWhile is_hex_digit (tl hostname);
           rest = dropWhile is_hex_digit (tl hostname)
       in digits \<noteq> [] \<and> startswith rest ''.'' \<and> tl rest \<noteq> [] \<and> CHR 0x0A \<notin> set (tl rest)))"

text \<open>\<open>_check_bracketed_host\<close>: \<open>None\<close> when it returns, the \<open>ValueError\<close> otherwise.
  \<open>ipaddress.ip_address\<close> tries \<open>IPv4Address\<close> first, then \<open>IPv6Address\<close>.\<close>

definition check_bracketed_host :: "string \<Rightarrow> error option" where
  "check_bracketed_host hostname =
     (if startswith hostname ''v''
      then (if ipvfuture_match hostname then None
            else Some (ValueError ''IPvFuture address is invalid''))
      else if IPv4Address hostname \<noteq> None
      then Some (ValueError ''An IPv4 address cannot be in brackets'')
      else if valid_IPv6Address hostname then None
      else Some (ValueError (repr hostname @ '' does not appear to be an IPv4 or IPv6 address'')))"

definition urlparse :: "string \<Rightarrow> error + parse_result" where
  "urlparse url0 =
     (let url1 = dropWhile (\<lambda>c. (of_char c :: nat) \<le> 32) url0;
          url2 = filter (\<lambda>c. c \<notin> set [CHR 0x09, CHR 0x0D, CHR 0x0A]) url1;
          has_scheme = (CHR '':'' \<in> set url2 \<and> before_first CHR '':'' url2 \<noteq> [] \<and>
                        is_ascii_alpha (hd url2) \<and>
                        list_all is_scheme_char (before_first CHR '':'' url2));
          sch = (if has_scheme then lower (before_first CHR '':'' url2) else []);
          url3 = (if has_scheme then after_first CHR '':'' url2 else url2);
          has_netloc = (take 2 url3 = ''//'');
          loc = (if has_netloc then takeWhile (\<lambda>c. c \<notin> set ''/?#'') (drop 2 url3) else []);
          url4 = (if has_netloc then dropWhile (\<lambda>c. c \<notin> set ''/?#'') (drop 2 url3) else url3)
      in if (CHR ''['' \<in> set loc \<and> CHR '']'' \<notin> set loc) \<or>
            (CHR '']'' \<in> set loc \<and> CHR ''['' \<notin> set loc)
         then Inl (ValueError ''Invalid IPv6 URL'')
         else case (if CHR ''['' \<in> set loc \<and> CHR '']'' \<in> set loc
                    then check_bracketed_host
                           (before_first CHR '']'' (after_first CHR ''['' loc))
                    else None) of
           Some e \<Rightarrow> Inl e
         | None \<Rightarrow>
             (let frag = (if CHR ''#'' \<in> set url4 then after_first CHR ''#'' url4 else []);
                  url5 = before_first CHR ''#'' url4;
                  qry = (if CHR ''?'' \<in> set url5 then after_first CHR ''?'' url5 else []);
                  url6 = before_first CHR ''?'' url5;
                  with_params = (sch \<in> set uses_params \<and> CHR '';'' \<in> set url6)
              in Inr \<lparr>scheme = sch, netloc = loc,
                      path = (if with_params then fst (splitparams url6) else url6),
                      params = (if with_params then snd (splitparams url6) else []),
                      query = qry, fragment = frag\<rparr>))"

text \<open>The \<open>hostname\<close> property: the network location after the last \<open>@\<close>, up to the port
  (or between the brackets), in lower case up to a zone mark \<open>%\<close>; \<open>None\<close> when empty.\<close>

definition hostname :: "parse_result \<Rightarrow> string option" where
  "hostname parsed =
     (let hostinfo = after_last CHR ''@'' (netloc parsed);
          host = (if CHR ''['' \<in> set hostinfo
                  then before_first CHR '']'' (after_first CHR ''['' hostinfo)
                  else before_first CHR '':'' hostinfo)
      in if host = [] then None
         else Some (lower (before_first CHR ''%'' host) @ dropWhile (\<lambda>c. c \<noteq> CHR ''%'') host))"

section \<open>Sites and configuration (\<open>app/models\<close>, \<open>app/core/config_helper.py\<close>)\<close>

record site =
  site_id :: int
  mirror_root :: string
  source_root :: string
  enabled :: bool
  site_proxy_subdomains :: "bool option"
  site_proxy_external_domains :: "bool option"
  site_rewrite_js_redirects :: "bool option"
  site_remove_ads :: "bool option"
  site_inject_ads :: "bool option"
  site_remove_analytics :: "bool option"
  site_media_policy :: "string option"
  site_session_mode :: "string option"
  site_custom_ad_html :: "string option"
  site_custom_tracker_js :: "string option"

record global_config =
  global_proxy_subdomains :: bool
  global_proxy_external_domains :: bool
  global_rewrite_js_redirects :: bool
  global_remove_ads :: bool
  global_inject_ads :: bool
  global_remove_analytics :: bool
  global_media_policy :: string
  global_session_mode :: string
  global_custom_ad_html :: "string option"
  global_custom_tracker_js :: "string option"

text \<open>The dict \<open>get_effective_config\<close> returns, one field for each key.\<close>

record effective_config =
  proxy_subdomains :: bool
  proxy_external_domains :: bool
  rewrite_js_redirects :: bool
  remove_ads :: bool
  inject_ads :: bool
  remove_analytics :: bool
  media_policy :: string
  session_mode :: string
  custom_ad_html :: "string option"
  custom_tracker_js :: "string option"

definition or_else :: "'a option \<Rightarrow> 'a \<Rightarrow> 'a" where
  "or_else site_value global_value = (case site_value of Some v \<Rightarrow> v | None \<Rightarrow> global_value)"

definition get_effective_config :: "site \<Rightarrow> global_config \<Rightarrow> effective_config" where
  "get_effective_config s g =
     \<lparr>proxy_subdomains = or_else (site_proxy_subdomains s) (global_proxy_subdomains g),
      proxy_external_domains = or_else (site_proxy_external_domains s) (global_proxy_external_domains g),
      rewrite_js_redirects = or_else (site_rewrite_js_redirects s) (global_rewrite_js_redirects g),
      remove_ads = or_else (site_remove_ads s) (global_remove_ads g),
      inject_ads = or_else (site_inject_ads s) (global_inject_ads g),
      remove_analytics = or_else (site_remove_analytics s) (global_remove_analytics g),
      media_policy = or_else (site_media_policy s) (global_media_policy g),
      session_mode = or_else (site_session_mode s) (global_session_mode g),
      custom_ad_html = (case site_custom_ad_html s of Some v \<Rightarrow> Some v
                        | None \<Rightarrow> global_custom_ad_html g),
      custom_tracker_js = (case site_custom_tracker_js s of Some v \<Rightarrow> Some v
                           | None \<Rightarrow> global_custom_tracker_js g)\<rparr>"

section \<open>Reverse mapping in the rewriter (\<open>app/proxy/rewriter.py\<close>)\<close>

definition MEDIA_EXTENSIONS :: "string list" where
  "MEDIA_EXTENSIONS =
     [''.jpg'', ''.jpeg'', ''.png'', ''.gif'', ''.webp'', ''.svg'', ''.ico'', ''.bmp'',
      ''.mp4'', ''.mkv'', ''.avi'', ''.mov'', ''.m3u8'', ''.webm'', ''.flv'', ''.wmv'',
      ''.mp3'', ''.wav'', ''.ogg'', ''.aac'', ''.flac'', ''.m4a'',
      ''.zip'', ''.rar'', ''.7z'', ''.tar'', ''.gz'', ''.bz2'',
      ''.pdf'', ''.doc'', ''.docx'', ''.xls'', ''.xlsx'', ''.ppt'', ''.pptx'',
      ''.apk'', ''.exe'', ''.dmg'', ''.deb'', ''.rpm'',
      ''.ttf'', ''.woff'', ''.woff2'', ''.eot'', ''.otf'']"

definition is_media_url :: "string \<Rightarrow> error + bool" where
  "is_media_url url =
     (if url = [] then Inr False
      else case urlparse url of
             Inl e \<Rightarrow> Inl e
           | Inr parsed \<Rightarrow> Inr (list_ex (\<lambda>ext. endswith (lower (path parsed)) ext) MEDIA_EXTENSIONS))"

text \<open>\<open>urllib.parse.urljoin\<close> is the parameter \<open>urljoin\<close> of the functions that resolve a
  relative reference.\<close>

definition make_absolute_url :: "(string \<Rightarrow> string \<Rightarrow> error + string) \<Rightarrow> string \<Rightarrow> string \<Rightarrow> error + string" where
  "make_absolute_url urljoin url base_url =
     (if url = [] \<or> startswith url ''data:'' \<or> startswith url ''javascript:'' \<or>
         startswith url ''mailto:'' \<or> startswith url ''#''
      then Inr url
      else if startswith url ''http://'' \<or> startswith url ''https://'' \<or> startswith url ''//''
      then (if startswith url ''//''
            then (case urlparse base_url of
                    Inl e \<Rightarrow> Inl e
                  | Inr parsed_base \<Rightarrow> Inr (scheme parsed_base @ '':'' @ url))
            else Inr url)
      else urljoin base_url url)"

definition url_belongs_to_domain :: "string \<Rightarrow> string \<Rightarrow> error + bool" where
  "url_belongs_to_domain url domain =
     (case urlparse url of
        Inl e \<Rightarrow> Inl e
      | Inr parsed \<Rightarrow>
          (case hostname parsed of
             None \<Rightarrow> Inr False
           | Some host \<Rightarrow> Inr (host = domain \<or> endswith host (''.'' @ domain))))"

definition map_origin_host_to_mirror_host :: "string \<Rightarrow> string \<Rightarrow> string \<Rightarrow> string" where
  "map_origin_host_to_mirror_host origin_host source_root' mirror_root' =
     (if origin_host = source_root' then mirror_root'
      else if endswith origin_host (''.'' @ source_root')
      then (let subdomain_prefix = take (length origin_host - (length source_root' + 1)) origin_host
            in subdomain_prefix @ ''.'' @ mirror_root')
      else origin_host)"

definition encode_external_url_path :: "string \<Rightarrow> string \<Rightarrow> string" where
  "encode_external_url_path external_host external_path0 =
     (let external_path = (if startswith external_path0 ''/'' then external_path0
                           else ''/'' @ external_path0)
      in ''/'' @ external_host @ external_path)"

text \<open>The path, then \<open>?query\<close> and \<open>#fragment\<close> when they are not empty.\<close>

definition with_query_fragment :: "string \<Rightarrow> string \<Rightarrow> string \<Rightarrow> string" where
  "with_query_fragment p q f =
     p @ (if q \<noteq> [] then ''?'' @ q else []) @ (if f \<noteq> [] then ''#'' @ f else [])"

definition rewrite_url ::
  "(string \<Rightarrow> string \<Rightarrow> error + string) \<Rightarrow> string \<Rightarrow> string \<Rightarrow> string \<Rightarrow> string \<Rightarrow> string \<Rightarrow>
     effective_config \<Rightarrow> error + string" where
  "rewrite_url urljoin url current_page_origin_url mirror_host mirror_root' site_source_root cfg =
     (if url = [] \<or> startswith url ''data:'' \<or> startswith url ''javascript:'' \<or>
         startswith url ''mailto:'' \<or> startswith url ''#''
      then Inr url
      else case make_absolute_url urljoin url current_page_origin_url of
        Inl e \<Rightarrow> Inl e
      | Inr absolute_url \<Rightarrow>
         (case is_media_url absolute_url of
            Inl e \<Rightarrow> Inl e
          | Inr media \<Rightarrow>
             if media \<and> media_policy cfg = ''bypass'' then Inr absolute_url
             else (case urlparse absolute_url of
                Inl e \<Rightarrow> Inl e
              | Inr parsed \<Rightarrow>
                 (case hostname parsed of
                    None \<Rightarrow> Inr url
                  | Some origin_host \<Rightarrow>
                     (let origin_path = (if path parsed = [] then ''/'' else path parsed)
                      in case url_belongs_to_domain absolute_url site_source_root of
                           Inl e \<Rightarrow> Inl e
                         | Inr is_same_domain \<Rightarrow>
                            if is_same_domain
                            then Inr (''https://'' @
                                   map_origin_host_to_mirror_host origin_host site_source_root mirror_root' @
                                   with_query_fragment origin_path (query parsed) (fragment parsed))
                            else if \<not> proxy_external_domains cfg then Inr absolute_url
                            else Inr (''https://'' @ mirror_root' @
                                   with_query_fragment (encode_external_url_path origin_host origin_path)
                                     (query parsed) (fragment parsed)))))))"

section \<open>Reverse mapping of redirects (\<open>app/proxy/router.py\<close>)\<close>

definition normalize_redirect_location :: "(string \<Rightarrow> string \<Rightarrow> error + string) \<Rightarrow> string \<Rightarrow> string \<Rightarrow> error + string" where
  "normalize_redirect_location urljoin location origin_url =
     (if location = [] then Inr location
      else if startswith location ''http://'' \<or> startswith location ''https://'' then Inr location
      else urljoin origin_url location)"

definition map_origin_url_to_mirror :: "string \<Rightarrow> site \<Rightarrow> string \<Rightarrow> error + string" where
  "map_origin_url_to_mirror origin_url st mirror_host =
     (case urlparse origin_url of
        Inl e \<Rightarrow> Inl e
      | Inr parsed \<Rightarrow>
         (let origin_host = (case hostname parsed of Some h \<Rightarrow> h | None \<Rightarrow> []);
              origin_path = (if path parsed = [] then ''/'' else path parsed);
              is_same_domain = (origin_host = source_root st \<or>
                                endswith origin_host (''.'' @ source_root st))
          in if is_same_domain
             then (let new_host =
                     (if origin_host = source_root st then mirror_root st
                      else take (length origin_host - (length (source_root st) + 1)) origin_host
                             @ ''.'' @ mirror_root st)
                   in Inr (''https://'' @ new_host @
                           with_query_fragment origin_path (query parsed) (fragment parsed)))
             else Inr (''https://'' @ mirror_host @
                       with_query_fragment
                         (encode_external_url_for_mirror (mirror_root st) origin_host origin_path)
                         (query parsed) (fragment parsed))))"

section \<open>SSRF guard (\<open>app/core/security.py\<close>)\<close>

text \<open>
  \<open>socket.gethostbyname\<close> is the parameter \<open>resolve\<close>: the IPv4 address of a host name as its
  four octets, or \<open>None\<close> for the \<open>gaierror\<close> (or \<open>ValueError\<close>) of a name that does not
  resolve. An \<open>IPv4Network\<close> is its network address and its prefix length; an address is
  in it when the bits of the address under the netmask are the network address. The
  networks and the predicates of \<open>ipaddress.IPv4Address\<close> are those of CPython 3.11.10.
\<close>

type_synonym ipv4 = "8 word \<times> 8 word \<times> 8 word \<times> 8 word"

type_synonym ipv4_network = "ipv4 \<times> nat"

definition ip_int :: "ipv4 \<Rightarrow> nat" where
  "ip_int ip = (case ip of (a, b, c, d) \<Rightarrow> ((unat a * 256 + unat b) * 256 + unat c) * 256 + unat d)"

definition in_network :: "ipv4 \<Rightarrow> ipv4_network \<Rightarrow> bool" where
  "in_network ip net =
     (case net of (network_address, prefixlen) \<Rightarrow>
        ip_int ip div 2 ^ (32 - prefixlen) * 2 ^ (32 - prefixlen) = ip_int network_address)"

definition private_networks :: "ipv4_network list" where
  "private_networks =
     [((0, 0, 0, 0), 8), ((10, 0, 0, 0), 8), ((127, 0, 0, 0), 8), ((169, 254, 0, 0), 16),
      ((172, 16, 0, 0), 12), ((192, 0, 0, 0), 24), ((192, 0, 0, 170), 31), ((192, 0, 2, 0), 24),
      ((192, 168, 0, 0), 16), ((198, 18, 0, 0), 15), ((198, 51, 100, 0), 24),
      ((203, 0, 113, 0), 24), ((240, 0, 0, 0), 4), ((255, 255, 255, 255), 32)]"

definition private_networks_exceptions :: "ipv4_network list" where
  "private_networks_exceptions = [((192, 0, 0, 9), 32), ((192, 0, 0, 10), 32)]"

definition is_private :: "ipv4 \<Rightarrow> bool" where
  "is_private ip =
     (list_ex (in_network ip) private_networks \<and>
      list_all (\<lambda>net. \<not> in_network ip net) private_networks_exceptions)"

definition is_loopback :: "ipv4 \<Rightarrow> bool" where
  "is_loopback ip = in_network ip ((127, 0, 0, 0), 8)"

definition is_reserved :: "ipv4 \<Rightarrow> bool" where
  "is_reserved ip = in_network ip ((240, 0, 0, 0), 4)"

definition is_link_local :: "ipv4 \<Rightarrow> bool" where
  "is_link_local ip = in_network ip ((169, 254, 0, 0), 16)"

text \<open>\<open>str\<close> of a natural number and of an integer, and the dotted form of an address.\<close>

function show_nat :: "nat \<Rightarrow> string" where
  "show_nat n =
     (if n < 10 then [''0123456789'' ! n]
      else show_nat (n div 10) @ [''0123456789'' ! (n mod 10)])"
  by pat_completeness auto
termination
  by (relation "measure id") auto

definition show_int :: "int \<Rightarrow> string" where
  "show_int i = (if i < 0 then ''-'' @ show_nat (nat (- i)) else show_nat (nat i))"

definition ip_str :: "ipv4 \<Rightarrow> string" where
  "ip_str ip = (case ip of (a, b, c, d) \<Rightarrow>
     show_nat (unat a) @ ''.'' @ show_nat (unat b) @ ''.'' @ show_nat (unat c) @ ''.'' @
     show_nat (unat d))"

text \<open>\<open>str(e)\<close> of an exception caught.\<close>

definition message :: "error \<Rightarrow> string" where
  "message e = (case e of ValueError msg \<Rightarrow> msg | TypeError \<Rightarrow> [])"

definition is_safe_origin_url :: "(string \<Rightarrow> ipv4 option) \<Rightarrow> string \<Rightarrow> bool \<times> string" where
  "is_safe_origin_url resolve url =
     (case urlparse url of
        Inl e \<Rightarrow> (False, ''Validation error: '' @ message e)
      | Inr parsed \<Rightarrow>
         if scheme parsed \<notin> set [''http'', ''https'']
         then (False, ''Invalid scheme: '' @ scheme parsed @ ''. Only HTTP/HTTPS allowed'')
         else (case hostname parsed of
            None \<Rightarrow> (False, ''Missing hostname'')
          | Some host \<Rightarrow>
             if lower host \<in> set [''localhost'', ''127.0.0.1'', ''::1'']
             then (False, ''Blocked: localhost access not allowed'')
             else (case resolve host of
                None \<Rightarrow> (True, ''OK'')
              | Some ip \<Rightarrow>
                 if is_loopback ip then (False, ''Blocked: loopback address '' @ ip_str ip)
                 else if is_private ip then (False, ''Blocked: private IP address '' @ ip_str ip)
                 else if is_reserved ip then (False, ''Blocked: reserved IP address '' @ ip_str ip)
                 else if is_link_local ip then (False, ''Blocked: link-local address '' @ ip_str ip)
                 else if in_network ip ((127, 0, 0, 0), 8)
                 then (False, ''Blocked: 127.0.0.0/8 range '' @ ip_str ip)
                 else if in_network ip ((10, 0, 0, 0), 8)
                 then (False, ''Blocked: 10.0.0.0/8 range '' @ ip_str ip)
                 else if in_network ip ((172, 16, 0, 0), 12)
                 then (False, ''Blocked: 172.16.0.0/12 range '' @ ip_str ip)
                 else if in_network ip ((192, 168, 0, 0), 16)
                 then (False, ''Blocked: 192.168.0.0/16 range '' @ ip_str ip)
                 else if in_network ip ((169, 254, 0, 0), 16)
                 then (False, ''Blocked: 169.254.0.0/16 range '' @ ip_str ip)
                 else (True, ''OK''))))"

section \<open>The proxy handler (\<open>app/proxy/router.py\<close>)\<close>

record settings =
  ADMIN_HOST :: string
  ENABLE_RATE_LIMITING :: bool
  RATE_LIMIT_REQUESTS :: int
  RATE_LIMIT_WINDOW :: int
  MAX_RESPONSE_SIZE_MB :: int

text \<open>What the handlers read of a request: the \<open>Host\<close> header if there is one, the client
  address (\<open>unknown\<close> without one), the path parameter of the catch-all route, the raw
  query string, the \<open>px_session_id\<close> cookie if there is one.\<close>

record request =
  host_header :: "string option"
  client_host :: "string option"
  path_param :: string
  url_query :: string
  session_cookie :: "string option"

record response =
  status_code :: int
  content :: string
  headers :: "(string \<times> string) list"
  set_session_cookie :: "string option"

definition find_site_by_host :: "string \<Rightarrow> site list \<Rightarrow> site option" where
  "find_site_by_host host sites =
     (let host_without_port = before_first CHR '':'' host
      in List.find (\<lambda>st. host_without_port = mirror_root st \<or>
                          endswith host_without_port (''.'' @ mirror_root st))
           (filter enabled sites))"

text \<open>The steps of the pipeline a call of the handler went through, in order, and where
  it ended: with a response of its own, or in \<open>proxy_request\<close> for a site and an origin URL.\<close>

datatype step = Rate_limit_check | Site_lookup | Build_origin_url | Ssrf_check | Proxy_request

datatype outcome = Respond response | Proxy site string

text \<open>The origin URL of a request, as the handler builds it for the site found.\<close>

definition request_origin_url :: "string \<Rightarrow> string \<Rightarrow> string \<Rightarrow> site \<Rightarrow> string" where
  "request_origin_url host path_p qry st =
     (let mirror_path = (if path_p \<noteq> [] then ''/'' @ path_p else ''/'');
          mirror_path = (if qry \<noteq> [] then mirror_path @ ''?'' @ qry else mirror_path)
      in build_origin_url (before_first CHR '':'' host) mirror_path (source_root st)
           (Some (mirror_root st)))"

text \<open>The handler from the admin-host guard on (what follows the rate limit block):
  \<open>steps0\<close> and \<open>limiter'\<close> are the steps taken and the limiter so far.\<close>

definition after_admission ::
  "settings \<Rightarrow> (string \<Rightarrow> ipv4 option) \<Rightarrow> site list \<Rightarrow> request \<Rightarrow> step list \<Rightarrow> rate_limiter option \<Rightarrow>
     outcome \<times> step list \<times> rate_limiter option" where
  "after_admission cfg resolve sites req steps0 limiter' =
     (let host = (case host_header req of Some h \<Rightarrow> h | None \<Rightarrow> [])
      in if host = ADMIN_HOST cfg \<or> startswith host ''0.0.0.0'' \<or> startswith host ''localhost''
         then (Respond \<lparr>status_code = 404, content = ''Not found'', headers = [],
                 set_session_cookie = None\<rparr>, steps0, limiter')
         else (case find_site_by_host host sites of
            None \<Rightarrow>
              (Respond \<lparr>status_code = 404, content = ''No site configured for host: '' @ host,
                 headers = [], set_session_cookie = None\<rparr>, steps0 @ [Site_lookup], limiter')
          | Some st \<Rightarrow>
              (let origin_url = request_origin_url host (path_param req) (url_query req) st;
                   safe = is_safe_origin_url resolve origin_url
               in if \<not> fst safe
                  then (Respond \<lparr>status_code = 403, content = ''Blocked: '' @ snd safe,
                          headers = [], set_session_cookie = None\<rparr>,
                        steps0 @ [Site_lookup, Build_origin_url, Ssrf_check], limiter')
                  else (Proxy st origin_url,
                        steps0 @ [Site_lookup, Build_origin_url, Ssrf_check, Proxy_request], limiter'))))"

text \<open>\<open>proxy_handler\<close>: \<open>limiter\<close> is \<open>get_rate_limiter()\<close> (\<open>None\<close> before
  \<open>init_rate_limiter\<close>), \<open>now\<close> and \<open>later\<close> the clock readings of \<open>is_allowed\<close> and
  \<open>get_retry_after\<close>, \<open>sites\<close> the rows of the \<open>sites\<close> table. The result is the outcome,
  the steps taken and the limiter after the call.\<close>

definition proxy_handler ::
  "settings \<Rightarrow> rate_limiter option \<Rightarrow> real \<Rightarrow> real \<Rightarrow> (string \<Rightarrow> ipv4 option) \<Rightarrow> site list \<Rightarrow> request \<Rightarrow>
     outcome \<times> step list \<times> rate_limiter option" where
  "proxy_handler cfg limiter now later resolve sites req =
     (let client_ip = (case client_host req of Some c \<Rightarrow> c | None \<Rightarrow> ''unknown'')
      in case (if ENABLE_RATE_LIMITING cfg then limiter else None) of
           None \<Rightarrow> after_admission cfg resolve sites req [] limiter
         | Some rate_limiter \<Rightarrow>
            (case is_allowed rate_limiter now client_ip of
               ((allowed, remaining), rate_limiter') \<Rightarrow>
                 if \<not> allowed
                 then (let retry_after = get_retry_after rate_limiter' later client_ip
                       in (Respond \<lparr>status_code = 429,
                             content = ''Rate limit exceeded. Try again in '' @ show_int retry_after
                                       @ '' seconds.'',
                             headers = [(''Retry-After'', show_int retry_after),
                                        (''X-RateLimit-Limit'', show_int (RATE_LIMIT_REQUESTS cfg)),
                                        (''X-RateLimit-Remaining'', ''0''),
                                        (''X-RateLimit-Reset'', show_int retry_after)],
                             set_session_cookie = None\<rparr>,
                           [Rate_limit_check], Some rate_limiter'))
                 else after_admission cfg resolve sites req [Rate_limit_check] (Some rate_limiter')))"

text \<open>\<open>init_rate_limiter\<close> makes the limiter that \<open>get_rate_limiter()\<close> returns from then on;
  \<open>main.py\<close> calls it once, when the application starts, with the two settings. Nothing
  but \<open>is_allowed\<close> changes the limiter afterwards.\<close>

definition init_rate_limiter :: "int \<Rightarrow> int \<Rightarrow> rate_limiter" where
  "init_rate_limiter max_requests' window_seconds' =
     \<lparr>max_requests = max_requests', window_seconds = window_seconds', request_log = Map.empty\<rparr>"

definition startup_rate_limiter :: "settings \<Rightarrow> rate_limiter" where
  "startup_rate_limiter cfg = init_rate_limiter (RATE_LIMIT_REQUESTS cfg) (RATE_LIMIT_WINDOW cfg)"

text \<open>The site of the specification's scenarios: \<open>mirror.com\<close> mirrors \<open>source.com\<close>, nothing
  overridden.\<close>

definition example_site :: site where
  "example_site =
     \<lparr>site_id = 1, mirror_root = ''mirror.com'', source_root = ''source.com'', enabled = True,
      site_proxy_subdomains = None, site_proxy_external_domains = None,
      site_rewrite_js_redirects = None, site_remove_ads = None, site_inject_ads = None,
      site_remove_analytics = None, site_media_policy = None, site_session_mode = None,
      site_custom_ad_html = None, site_custom_tracker_js = None\<rparr>"

definition example_settings :: settings where
  "example_settings =
     \<lparr>ADMIN_HOST = ''0.0.0.0'', ENABLE_RATE_LIMITING = True, RATE_LIMIT_REQUESTS = 60,
      RATE_LIMIT_WINDOW = 60, MAX_RESPONSE_SIZE_MB = 15\<rparr>"



section \<open>Well-formed hosts and paths\<close>

text \<open>
  A host name in the form the mapper keeps as it is: in lower case, with none of the
  characters that end or structure the network location of a URL, and none that the
  parser removes. A path that holds no query, fragment or parameter mark, and none of
  the removed characters either.
\<close>

definition is_plain_host :: "string \<Rightarrow> bool" where
  "is_plain_host s =
     list_all (\<lambda>c. lower_char c = c \<and> c \<notin> set ''/?#@:[]%'' \<and>
                    c \<notin> set [CHR 0x09, CHR 0x0D, CHR 0x0A]) s"

definition is_plain_path :: "string \<Rightarrow> bool" where
  "is_plain_path p =
     (startswith p ''/'' \<and>
      list_all (\<lambda>c. c \<notin> set ''?#;'' \<and> c \<notin> set [CHR 0x09, CHR 0x0D, CHR 0x0A]) p)"

text \<open>The first segment of a path, as \<open>build_origin_url\<close> takes it, and the path up to the
  default \<open>/\<close>, which stands for a path without segments.\<close>

definition first_segment_of :: "string \<Rightarrow> string" where
  "first_segment_of p = before_first CHR ''/'' (lstrip_char CHR ''/'' p)"

definition default_path :: "string \<Rightarrow> string" where
  "default_path p = (if lstrip_char CHR ''/'' p = [] then ''/'' else p)"

text \<open>A path that ends in one of the media extensions, whatever the case of its letters.\<close>

definition is_media_path :: "string \<Rightarrow> bool" where
  "is_media_path p = list_ex (\<lambda>ext. endswith (lower p) ext) MEDIA_EXTENSIONS"

section \<open>Properties of the cookie jar\<close>

lemma map_of_dict_set: "map_of (dict_set d k v) = (map_of d)(k \<mapsto> v)"
  by (induction d k v rule: dict_set.induct) auto

lemma map_of_dict_update: "map_of (dict_update d e) = map_of d ++ map_of (rev e)"
  by (induction d e rule: dict_update.induct)
     (auto simp: map_of_dict_set map_add_def fun_eq_iff split: option.splits)

lemma keys_dict_set: "set (map fst (dict_set d k v)) = insert k (set (map fst d))"
  by (induction d k v rule: dict_set.induct) auto

lemma distinct_dict_set: "distinct (map fst d) \<Longrightarrow> distinct (map fst (dict_set d k v))"
proof (induction d k v rule: dict_set.induct)
  case (1 k v)
  then show ?case by simp
next
  case (2 k' v' d k v)
  then show ?case using keys_dict_set [of d k v] by auto
qed

lemma map_of_rev_distinct: "distinct (map fst xs) \<Longrightarrow> map_of (rev xs) = map_of xs"
proof -
  assume d: "distinct (map fst xs)"
  then have "distinct (map fst (rev xs))" by (metis distinct_rev rev_map)
  moreover have "set (rev xs) = set xs" by simp
  ultimately show ?thesis using d map_of_inject_set by blast
qed

lemma dict_set_new: "k \<notin> fst ` set d \<Longrightarrow> dict_set d k v = d @ [(k, v)]"
  by (induction d k v rule: dict_set.induct) auto

text \<open>Updating with a dict whose keys are all new appends it.\<close>

lemma dict_update_append: "distinct (map fst (a @ e)) \<Longrightarrow> dict_update a e = a @ e"
proof (induction e arbitrary: a)
  case Nil
  then show ?case by simp
next
  case (Cons x e)
  obtain k v where x: "x = (k, v)" by (cases x)
  from Cons.prems have "k \<notin> fst ` set a" by (auto simp: x)
  then have s: "dict_set a k v = a @ [(k, v)]" by (rule dict_set_new)
  from Cons.prems have "distinct (map fst ((a @ [(k, v)]) @ e))" by (auto simp: x)
  from Cons.IH [OF this] show ?case by (simp add: x s)
qed

lemma distinct_parse_set_cookies:
  "distinct (map fst acc) \<Longrightarrow> distinct (map fst (parse_set_cookies acc hs))"
  by (induction hs arbitrary: acc) (auto simp: distinct_dict_set split: option.splits)

text \<open>The loop assigns the pairs of the headers that have one, in header order.\<close>

lemma parse_set_cookies_update:
  "parse_set_cookies acc hs = dict_update acc (List.map_filter parse_set_cookie hs)"
  by (induction hs arbitrary: acc) (auto simp: List.map_filter_simps split: option.splits)

lemma get_after_store:
  "get_cookies (store_cookies db sid sess host hs) sid sess host =
     dict_update (get_cookies db sid sess host) (parse_set_cookies [] hs)"
  using dict_update_append [of "[]" "parse_set_cookies [] hs"]
    distinct_parse_set_cookies [of "[]" hs]
  by (auto simp: get_cookies_def store_cookies_def Let_def existing_cookies_def
      split: option.splits cookie_data.splits)

text \<open>
  Claim C7 (cookie store merge semantics). For every triple \<open>(sid, sess, host)\<close>:
  storing an empty list of headers leaves the store as it is; a header is parsed from its
  text before the first \<open>;\<close> alone; after a store, the jar read back maps every name to
  the value of the last header of the call that set it, and every other name to what
  the jar held before (last write wins); and from a jar that holds nothing for the
  triple, storing \<open>a=1\<close> and then \<open>a=2\<close>, \<open>b=3\<close> reads back as \<open>{a: 2, b: 3}\<close>.
\<close>

theorem cookie_store_merge:
  "store_cookies db sid sess host [] = db \<and>
   parse_set_cookie h = parse_set_cookie (before_first CHR '';'' h) \<and>
   map_of (get_cookies (store_cookies db sid sess host hs) sid sess host) =
     map_of (get_cookies db sid sess host) ++ map_of (rev (List.map_filter parse_set_cookie hs)) \<and>
   (get_cookies db sid sess host = [] \<longrightarrow>
      get_cookies (store_cookies (store_cookies db sid sess host [''a=1''])
                     sid sess host [''a=2'', ''b=3'']) sid sess host
        = [(''a'', ''2''), (''b'', ''3'')])"
proof (intro conjI impI)
  show "store_cookies db sid sess host [] = db"
    by (simp add: store_cookies_def)
  show "parse_set_cookie h = parse_set_cookie (before_first CHR '';'' h)"
    by (simp add: parse_set_cookie_def before_first_def)
  show "map_of (get_cookies (store_cookies db sid sess host hs) sid sess host) =
     map_of (get_cookies db sid sess host) ++ map_of (rev (List.map_filter parse_set_cookie hs))"
  proof -
    have "map_of (rev (parse_set_cookies [] hs)) = map_of (parse_set_cookies [] hs)"
      using distinct_parse_set_cookies [of "[]" hs] by (simp add: map_of_rev_distinct)
    also have "\<dots> = map_of (rev (List.map_filter parse_set_cookie hs))"
      by (simp add: parse_set_cookies_update [of "[]"] map_of_dict_update)
    finally show ?thesis
      by (simp add: get_after_store map_of_dict_update [of "get_cookies db sid sess host"])
  qed
next
  assume fresh: "get_cookies db sid sess host = []"
  have one: "parse_set_cookies [] [''a=1''] = [(''a'', ''1'')]"
    by (simp add: parse_set_cookie_def strip_def before_first_def after_first_def is_space_def)
  have two: "parse_set_cookies [] [''a=2'', ''b=3''] = [(''a'', ''2''), (''b'', ''3'')]"
    by (simp add: parse_set_cookie_def strip_def before_first_def after_first_def is_space_def)
  show "get_cookies (store_cookies (store_cookies db sid sess host [''a=1''])
                     sid sess host [''a=2'', ''b=3'']) sid sess host
        = [(''a'', ''2''), (''b'', ''3'')]"
  proof -
    have "get_cookies (store_cookies (store_cookies db sid sess host [''a=1''])
                     sid sess host [''a=2'', ''b=3'']) sid sess host
        = dict_update (dict_update [] [(''a'', ''1'')]) [(''a'', ''2''), (''b'', ''3'')]"
      by (simp only: get_after_store fresh one two)
    then show ?thesis by simp
  qed
qed

theorem cookie_store_merge_witness:
  "get_cookies Map.empty 7 ''sess'' ''source.com'' = [] \<and>
   get_cookies (store_cookies (store_cookies Map.empty 7 ''sess'' ''source.com'' [''a=1''])
       7 ''sess'' ''source.com'' [''a=2'', ''b=3'']) 7 ''sess'' ''source.com''
     = [(''a'', ''2''), (''b'', ''3'')]"
proof -
  have fresh: "get_cookies Map.empty 7 ''sess'' ''source.com'' = []"
    by (simp add: get_cookies_def)
  with cookie_store_merge [where db = Map.empty and sid = 7 and sess = "''sess''"
      and host = "''source.com''"]
  show ?thesis by blast
qed

section \<open>Properties of the session manager\<close>

lemma hexdigit_cases: "n < 16 \<Longrightarrow> hexdigit n \<in> set ''0123456789abcdef''"
  unfolding hexdigit_def by (rule nth_mem) simp

lemma hexdigit_inj: "n < 16 \<Longrightarrow> m < 16 \<Longrightarrow> hexdigit n = hexdigit m \<Longrightarrow> n = m"
proof -
  assume "n < 16" "m < 16" "hexdigit n = hexdigit m"
  moreover have "distinct ''0123456789abcdef''" by simp
  ultimately show ?thesis unfolding hexdigit_def
    by (simp add: nth_eq_iff_index_eq)
qed

lemma of_char_lt: "(of_char c :: nat) < 256"
proof -
  have "(of_char c :: nat) mod 256 < 256" by (rule mod_less_divisor) simp
  then show ?thesis by (simp only: of_char_mod_256)
qed

lemma byte_halves: "(of_char c :: nat) div 16 < 16 \<and> (of_char c :: nat) mod 16 < 16"
proof -
  have "(of_char c :: nat) < 16 * 16" using of_char_lt [of c] by simp
  then have "(of_char c :: nat) div 16 < 16" by (simp only: less_mult_imp_div_less)
  then show ?thesis by simp
qed

lemma hex_of_byte_inj: "hex_of_byte a = hex_of_byte b \<Longrightarrow> a = b"
proof -
  assume h: "hex_of_byte a = hex_of_byte b"
  have la: "(of_char a :: nat) div 16 < 16" "(of_char a :: nat) mod 16 < 16"
    using byte_halves [of a] by auto
  have lb: "(of_char b :: nat) div 16 < 16" "(of_char b :: nat) mod 16 < 16"
    using byte_halves [of b] by auto
  from h have e: "hexdigit (of_char a div 16) = hexdigit (of_char b div 16)"
    "hexdigit (of_char a mod 16) = hexdigit (of_char b mod 16)"
    by (simp_all add: hex_of_byte_def)
  have "(of_char a :: nat) div 16 = of_char b div 16"
    by (rule hexdigit_inj [OF la(1) lb(1) e(1)])
  moreover have "(of_char a :: nat) mod 16 = of_char b mod 16"
    by (rule hexdigit_inj [OF la(2) lb(2) e(2)])
  ultimately have "(of_char a :: nat) div 16 = of_char b div 16 \<and> (of_char a :: nat) mod 16 = of_char b mod 16"
    by simp
  then have "(of_char a :: nat) = of_char b"
    by (metis div_mult_mod_eq)
  then show ?thesis by simp
qed

lemma hexdigest_inj: "hexdigest a = hexdigest b \<Longrightarrow> a = b"
proof (induction a arbitrary: b)
  case Nil
  then show ?case by (cases b) (auto simp: hexdigest_def hex_of_byte_def)
next
  case (Cons x a)
  then obtain y b' where b: "b = y # b'" by (cases b) (auto simp: hexdigest_def hex_of_byte_def)
  from Cons.prems have "hex_of_byte x = hex_of_byte y" "hexdigest a = hexdigest b'"
    by (auto simp: b hexdigest_def hex_of_byte_def)
  then show ?case using Cons.IH hex_of_byte_inj by (auto simp: b)
qed

lemma hexdigit_ok: "n < 16 \<Longrightarrow> hexdigit n \<noteq> CHR ''.'' \<and> is_ascii (hexdigit n)"
proof -
  assume "n < 16"
  then have "hexdigit n \<in> set ''0123456789abcdef''" by (rule hexdigit_cases)
  moreover have "c \<noteq> CHR ''.'' \<and> is_ascii c" if "c \<in> set ''0123456789abcdef''" for c
    using that by (auto simp: is_ascii_def)
  ultimately show ?thesis by blast
qed

lemma hex_of_byte_ok: "x \<in> set (hex_of_byte c) \<Longrightarrow> x \<noteq> CHR ''.'' \<and> is_ascii x"
  using byte_halves [of c] hexdigit_ok [of "of_char c div 16"] hexdigit_ok [of "of_char c mod 16"]
  by (auto simp: hex_of_byte_def)

lemma hexdigest_ok: "x \<in> set (hexdigest d) \<Longrightarrow> x \<noteq> CHR ''.'' \<and> is_ascii x"
  unfolding hexdigest_def using hex_of_byte_ok by fastforce

lemma hexdigest_no_dot: "CHR ''.'' \<notin> set (hexdigest d)"
  using hexdigest_ok [of "CHR ''.''" d] by blast

lemma hexdigest_ascii: "list_all is_ascii (hexdigest d)"
  unfolding list_all_iff using hexdigest_ok by blast

lemma length_hexdigest: "length (hexdigest d) = 2 * length d"
  by (induction d) (auto simp: hexdigest_def hex_of_byte_def)

lemma dropWhile_neq_Cons: "c \<in> set xs \<Longrightarrow> \<exists>r. dropWhile (\<lambda>x. x \<noteq> c) xs = c # r"
  by (induction xs) auto

lemma rsplit_join: "c \<in> set s \<Longrightarrow> before_last c s @ [c] @ after_last c s = s"
proof -
  assume "c \<in> set s"
  then have "c \<in> set (rev s)" by simp
  then have "\<exists>r. dropWhile (\<lambda>x. x \<noteq> c) (rev s) = c # r"
    by (rule dropWhile_neq_Cons)
  then obtain r where d: "dropWhile (\<lambda>x. x \<noteq> c) (rev s) = c # r" ..
  have "rev s = takeWhile (\<lambda>x. x \<noteq> c) (rev s) @ dropWhile (\<lambda>x. x \<noteq> c) (rev s)" by simp
  then have "rev s = takeWhile (\<lambda>x. x \<noteq> c) (rev s) @ c # r" by (simp only: d)
  then have "s = rev (takeWhile (\<lambda>x. x \<noteq> c) (rev s) @ c # r)" by (metis rev_rev_ident)
  then show ?thesis by (simp add: before_last_def after_last_def d)
qed

lemma rsplit_append:
  "c \<notin> set h \<Longrightarrow> before_last c (t @ [c] @ h) = t \<and> after_last c (t @ [c] @ h) = h"
  by (simp add: before_last_def after_last_def takeWhile_append dropWhile_append)

lemma verify_with_dot:
  assumes "CHR ''.'' \<in> set s"
  shows "verify_session_id mac k s =
     (if hexdigest (mac k (before_last CHR ''.'' s)) = after_last CHR ''.'' s
      then Some (before_last CHR ''.'' s) else None)"
proof (cases "list_all is_ascii (after_last CHR ''.'' s)")
  case True
  with assms show ?thesis
    by (simp add: verify_session_id_def Let_def compare_digest_def hexdigest_ascii)
next
  case False
  then have "hexdigest (mac k (before_last CHR ''.'' s)) \<noteq> after_last CHR ''.'' s"
    using hexdigest_ascii [of "mac k (before_last CHR ''.'' s)"] by auto
  with False assms show ?thesis
    by (simp add: verify_session_id_def Let_def compare_digest_def)
qed

lemma verify_iff:
  "verify_session_id mac k s = Some t \<longleftrightarrow> s = create_signed_session_cookie mac k t"
proof
  assume v: "verify_session_id mac k s = Some t"
  then have dot: "CHR ''.'' \<in> set s" by (auto simp: verify_session_id_def split: if_splits)
  from v have tb: "before_last CHR ''.'' s = t"
    unfolding verify_with_dot [OF dot] by (auto split: if_splits)
  from v have h: "after_last CHR ''.'' s = hexdigest (mac k t)"
    unfolding verify_with_dot [OF dot] by (auto split: if_splits)
  have "t @ [CHR ''.''] @ hexdigest (mac k t) = s"
    using rsplit_join [OF dot] by (simp only: tb h)
  then show "s = create_signed_session_cookie mac k t"
    by (simp add: create_signed_session_cookie_def sign_session_id_def)
next
  assume s: "s = create_signed_session_cookie mac k t"
  have e: "s = t @ [CHR ''.''] @ hexdigest (mac k t)"
    by (simp add: s create_signed_session_cookie_def sign_session_id_def)
  then have dot: "CHR ''.'' \<in> set s" by simp
  from rsplit_append [OF hexdigest_no_dot, where t = t and d1 = "mac k t"]
  show "verify_session_id mac k s = Some t"
    unfolding verify_with_dot [OF dot] by (simp add: e)
qed

lemma verify_signed_parts:
  assumes "verify_session_id mac k (a @ ''.'' @ b) = Some t'"
  shows "a @ ''.'' @ b = t' @ ''.'' @ hexdigest (mac k t')"
  using assms verify_iff [of mac k "a @ ''.'' @ b" t']
  by (simp add: create_signed_session_cookie_def sign_session_id_def)

text \<open>
  Claim C5 (session mint/verify exactness). Under a fixed secret \<open>k\<close>, with the MAC a
  parameter whose digests have the 32 bytes of SHA-256: \<open>verify_session_id\<close> returns
  the token \<open>t\<close> exactly for the string minting produces from \<open>t\<close>, so it returns
  a token exactly for the minted strings; it returns \<open>None\<close> when any one character of
  the signature half of a minted string is changed, and when any one character of the
  token half is changed to a token with another digest (two tokens with one digest carry
  the same signature, which no verifier can tell apart). The function is total: every
  exception of the code is the value \<open>None\<close>.
\<close>

theorem session_verify_exact:
  assumes len: "\<forall>m. length (mac k m) = 32"
  shows "(verify_session_id mac k s = Some t \<longleftrightarrow> s = create_signed_session_cookie mac k t) \<and>
    (verify_session_id mac k s \<noteq> None \<longleftrightarrow> (\<exists>t'. s = create_signed_session_cookie mac k t')) \<and>
    (\<forall>j c. j < length (hexdigest (mac k t)) \<and> c \<noteq> hexdigest (mac k t) ! j \<longrightarrow>
       verify_session_id mac k (t @ ''.'' @ (hexdigest (mac k t))[j := c]) = None) \<and>
    (\<forall>i c. i < length t \<and> mac k (t[i := c]) \<noteq> mac k t \<longrightarrow>
       verify_session_id mac k (t[i := c] @ ''.'' @ hexdigest (mac k t)) = None)"
proof (intro conjI allI impI)
  show "verify_session_id mac k s = Some t \<longleftrightarrow> s = create_signed_session_cookie mac k t"
    by (rule verify_iff)
  show "verify_session_id mac k s \<noteq> None \<longleftrightarrow> (\<exists>t'. s = create_signed_session_cookie mac k t')"
    using verify_iff [of mac k s] by auto
next
  fix j c
  let ?sig = "hexdigest (mac k t)"
  assume a: "j < length ?sig \<and> c \<noteq> ?sig ! j"
  show "verify_session_id mac k (t @ ''.'' @ ?sig[j := c]) = None"
  proof (rule ccontr)
    assume "verify_session_id mac k (t @ ''.'' @ ?sig[j := c]) \<noteq> None"
    then obtain t' where "verify_session_id mac k (t @ ''.'' @ ?sig[j := c]) = Some t'" by blast
    then have e: "t @ ''.'' @ ?sig[j := c] = t' @ ''.'' @ hexdigest (mac k t')"
      by (rule verify_signed_parts)
    have l: "length (?sig[j := c]) = length (hexdigest (mac k t'))"
      using len by (simp add: length_hexdigest)
    from e have "length (t @ ''.'' @ ?sig[j := c]) = length (t' @ ''.'' @ hexdigest (mac k t'))"
      by (rule arg_cong)
    with l have "length t = length t'" by simp
    with e have "t = t'" "?sig[j := c] = hexdigest (mac k t')" by auto
    then have "?sig[j := c] = ?sig" by simp
    then have "?sig[j := c] ! j = ?sig ! j" by simp
    with a show False by simp
  qed
next
  fix i c
  assume a: "i < length t \<and> mac k (t[i := c]) \<noteq> mac k t"
  show "verify_session_id mac k (t[i := c] @ ''.'' @ hexdigest (mac k t)) = None"
  proof (rule ccontr)
    assume "verify_session_id mac k (t[i := c] @ ''.'' @ hexdigest (mac k t)) \<noteq> None"
    then obtain t' where "verify_session_id mac k (t[i := c] @ ''.'' @ hexdigest (mac k t)) = Some t'"
      by blast
    then have e: "t[i := c] @ ''.'' @ hexdigest (mac k t) = t' @ ''.'' @ hexdigest (mac k t')"
      by (rule verify_signed_parts)
    have l: "length (hexdigest (mac k t)) = length (hexdigest (mac k t'))"
      using len by (simp add: length_hexdigest)
    from e have "length (t[i := c] @ ''.'' @ hexdigest (mac k t)) = length (t' @ ''.'' @ hexdigest (mac k t'))"
      by (rule arg_cong)
    with l have "length (t[i := c]) = length t'" by simp
    with e have "t[i := c] = t'" "hexdigest (mac k t) = hexdigest (mac k t')" by auto
    then have "mac k t = mac k (t[i := c])" using hexdigest_inj by blast
    with a show False by simp
  qed
qed


theorem session_verify_exact_witness:
  "verify_session_id pad_mac ''key'' (create_signed_session_cookie pad_mac ''key'' ''tok'')
     = Some ''tok'' \<and>
   verify_session_id pad_mac ''key''
     (''tok''[1 := CHR ''a''] @ ''.'' @ hexdigest (pad_mac ''key'' ''tok'')) = None \<and>
   verify_session_id pad_mac ''key''
     (''tok'' @ ''.'' @ (hexdigest (pad_mac ''key'' ''tok''))[0 := CHR ''.'']) = None"
proof -
  have len: "\<forall>m. length (pad_mac ''key'' m) = 32" by (auto simp: pad_mac_def)
  have diff: "(1::nat) < length ''tok'' \<and> pad_mac ''key'' (''tok''[1 := CHR ''a'']) \<noteq> pad_mac ''key'' ''tok''"
    by (simp add: pad_mac_def)
  have sig: "(0::nat) < length (hexdigest (pad_mac ''key'' ''tok'')) \<and>
      CHR ''.'' \<noteq> hexdigest (pad_mac ''key'' ''tok'') ! 0"
    by (simp add: pad_mac_def hexdigest_def hex_of_byte_def hexdigit_def)
  from session_verify_exact [where mac = pad_mac and k = "''key''"
      and s = "create_signed_session_cookie pad_mac ''key'' ''tok''" and t = "''tok''", OF len] diff sig
  show ?thesis by blast
qed

section \<open>Properties of the rate limiter\<close>

lemma is_allowed_fields:
  "max_requests (snd (is_allowed s now ip)) = max_requests s"
  "window_seconds (snd (is_allowed s now ip)) = window_seconds s"
  by (simp_all add: is_allowed_def Let_def)

lemma is_allowed_denied_iff:
  "\<not> fst (fst (is_allowed s now ip)) \<longleftrightarrow>
     max_requests s \<le> int (length (filter (\<lambda>ts. now - real_of_int (window_seconds s) < ts) (stored s ip)))"
  by (simp add: is_allowed_def Let_def stored_def)

lemma stored_after:
  "stored (snd (is_allowed s now ip)) ip' =
     (if ip' = ip
      then (if fst (fst (is_allowed s now ip))
            then filter (\<lambda>ts. now - real_of_int (window_seconds s) < ts) (stored s ip) @ [now]
            else filter (\<lambda>ts. now - real_of_int (window_seconds s) < ts) (stored s ip))
      else stored s ip')"
  by (simp add: is_allowed_def Let_def stored_def)

text \<open>The stored list and the list of all admissions agree on every window that starts at
  \<open>x0\<close> or later.\<close>

lemma filter_filter_le:
  fixes x c :: real
  assumes "c \<le> x"
  shows "filter (\<lambda>ts. x < ts) (filter (\<lambda>ts. c < ts) L) = filter (\<lambda>ts. x < ts) L"
  using assms by (induction L) auto

lemma length_filter_mono:
  assumes "\<And>x. x \<in> set xs \<Longrightarrow> P x \<Longrightarrow> Q x"
  shows "length (filter P xs) \<le> length (filter Q xs)"
  using assms by (induction xs) auto

lemma window_step:
  fixes W now :: real and A L :: "real list"
  assumes P: "\<forall>t. int (length (filter (\<lambda>ts. t - W < ts \<and> ts \<le> t) A)) \<le> N"
    and agree: "filter (\<lambda>ts. now - W < ts) L = filter (\<lambda>ts. now - W < ts) A"
    and room: "int (length (filter (\<lambda>ts. now - W < ts) L)) < N"
  shows "\<forall>t. int (length (filter (\<lambda>ts. t - W < ts \<and> ts \<le> t) (A @ [now]))) \<le> N"
proof
  fix t
  show "int (length (filter (\<lambda>ts. t - W < ts \<and> ts \<le> t) (A @ [now]))) \<le> N"
  proof (cases "now \<le> t")
    case False
    then show ?thesis using P by simp
  next
    case True
    have "length (filter (\<lambda>ts. t - W < ts \<and> ts \<le> t) A) \<le> length (filter (\<lambda>ts. now - W < ts) A)"
      using True by (intro length_filter_mono) auto
    then have "int (length (filter (\<lambda>ts. t - W < ts \<and> ts \<le> t) A)) < N"
      using room agree by simp
    then show ?thesis by simp
  qed
qed

lemma windows_run:
  fixes A :: "real list"
  assumes "sorted (map fst calls)"
    and "\<forall>c \<in> set calls. T \<le> fst c"
    and "\<forall>x \<ge> T - real_of_int (window_seconds s). filter (\<lambda>ts. x < ts) (stored s ip) = filter (\<lambda>ts. x < ts) A"
    and "\<forall>t. int (length (filter (\<lambda>ts. t - real_of_int (window_seconds s) < ts \<and> ts \<le> t) A)) \<le> max_requests s"
  shows "\<forall>t. int (length (filter (\<lambda>ts. t - real_of_int (window_seconds s) < ts \<and> ts \<le> t)
            (A @ map fst (filter (\<lambda>c. snd c = ip) (admitted s calls))))) \<le> max_requests s"
  using assms
proof (induction calls arbitrary: s A T)
  case Nil
  then show ?case by simp
next
  case (Cons call calls)
  obtain now ip' where call: "call = (now, ip')" by (cases call)
  let ?W = "real_of_int (window_seconds s)"
  let ?s' = "snd (is_allowed s now ip')"
  let ?ok = "fst (fst (is_allowed s now ip'))"
  define A' where "A' = (if ?ok \<and> ip' = ip then A @ [now] else A)"
  have Tnow: "T \<le> now" using Cons.prems(2) by (simp add: call)
  have sorted': "sorted (map fst calls)" using Cons.prems(1) by simp
  have later: "\<forall>c \<in> set calls. now \<le> fst c" using Cons.prems(1) by (auto simp: call)
  have agree': "\<forall>x \<ge> now - real_of_int (window_seconds ?s').
      filter (\<lambda>ts. x < ts) (stored ?s' ip) = filter (\<lambda>ts. x < ts) A'"
  proof (intro allI impI)
    fix x assume "x \<ge> now - real_of_int (window_seconds ?s')"
    then have x: "now - ?W \<le> x" by (simp add: is_allowed_fields)
    then have xT: "T - ?W \<le> x" using Tnow by simp
    have old: "filter (\<lambda>ts. x < ts) (stored s ip) = filter (\<lambda>ts. x < ts) A"
      using Cons.prems(3) xT by simp
    show "filter (\<lambda>ts. x < ts) (stored ?s' ip) = filter (\<lambda>ts. x < ts) A'"
    proof (cases "?ok \<and> ip' = ip")
      case True
      then have "A' = A @ [now]" unfolding A'_def by (rule if_P)
      then show ?thesis
        using True old filter_filter_le [OF x, of "stored s ip"] by (auto simp add: stored_after)
    next
      case False
      then have "A' = A" unfolding A'_def by (rule if_not_P)
      then show ?thesis
        using False old filter_filter_le [OF x, of "stored s ip"] by (auto simp add: stored_after)
    qed
  qed
  have win': "\<forall>t. int (length (filter (\<lambda>ts. t - real_of_int (window_seconds ?s') < ts \<and> ts \<le> t) A'))
      \<le> max_requests ?s'"
  proof (cases "?ok \<and> ip' = ip")
    case False
    then have "A' = A" unfolding A'_def by (rule if_not_P)
    then show ?thesis using Cons.prems(4) by (simp add: is_allowed_fields)
  next
    case True
    then have A': "A' = A @ [now]" unfolding A'_def by (rule if_P)
    from True have room: "int (length (filter (\<lambda>ts. now - ?W < ts) (stored s ip))) < max_requests s"
      using is_allowed_denied_iff [of s now ip] by auto
    have agree: "filter (\<lambda>ts. now - ?W < ts) (stored s ip) = filter (\<lambda>ts. now - ?W < ts) A"
      using Cons.prems(3) Tnow by simp
    from window_step [OF Cons.prems(4) agree room] show ?thesis
      by (simp add: A' is_allowed_fields)
  qed
  have adm: "A @ map fst (filter (\<lambda>c. snd c = ip) (admitted s (call # calls)))
      = A' @ map fst (filter (\<lambda>c. snd c = ip) (admitted ?s' calls))"
    by (auto simp add: call A'_def)
  from Cons.IH [OF sorted' later agree' win']
  show ?case by (simp add: adm is_allowed_fields del: admitted.simps)
qed

lemma fold_min_in: "fold min rs (r::real) \<in> set (r # rs)"
proof (induction rs arbitrary: r)
  case Nil
  then show ?case by simp
next
  case (Cons a rs)
  have "fold min rs (min a r) \<in> set (min a r # rs)" by (rule Cons.IH)
  moreover have "min a r = a \<or> min a r = r" by (auto simp: min_def)
  ultimately show ?case by auto
qed

lemma stored_run_from:
  "ts \<in> set (stored (run s calls) ip) \<Longrightarrow> ts \<in> set (stored s ip) \<or> ts \<in> fst ` set calls"
proof (induction calls arbitrary: s)
  case Nil
  then show ?case by simp
next
  case (Cons call calls)
  obtain now ip' where call: "call = (now, ip')" by (cases call)
  from Cons.prems have "ts \<in> set (stored (run (snd (is_allowed s now ip')) calls) ip)"
    by (simp add: call)
  then have "ts \<in> set (stored (snd (is_allowed s now ip')) ip) \<or> ts \<in> fst ` set calls"
    by (rule Cons.IH)
  moreover have "ts \<in> set (stored (snd (is_allowed s now ip')) ip) \<Longrightarrow> ts \<in> set (stored s ip) \<or> ts = now"
    by (auto simp: stored_after split: if_splits)
  ultimately show ?case by (auto simp: call)
qed

lemma run_fields:
  "max_requests (run s calls) = max_requests s \<and> window_seconds (run s calls) = window_seconds s"
  by (induction calls arbitrary: s) (auto simp: is_allowed_fields)

lemma py_int_mono: "x \<le> y \<Longrightarrow> py_int x \<le> py_int y"
proof -
  assume xy: "x \<le> y"
  consider "0 \<le> x" | "x < 0" "0 \<le> y" | "y < 0" using xy by linarith
  then show ?thesis
  proof cases
    case 1
    then show ?thesis using xy by (simp add: py_int_def floor_mono)
  next
    case 2
    then have "\<lceil>x\<rceil> \<le> 0" "0 \<le> \<lfloor>y\<rfloor>" by (simp_all add: ceiling_le_zero)
    then have "\<lceil>x\<rceil> \<le> \<lfloor>y\<rfloor>" by linarith
    then show ?thesis using 2 by (simp add: py_int_def)
  next
    case 3
    then show ?thesis using xy by (simp add: py_int_def ceiling_mono)
  qed
qed

lemma py_int_le: "x \<le> real_of_int w \<Longrightarrow> 0 \<le> w \<Longrightarrow> py_int x \<le> w"
proof -
  assume "x \<le> real_of_int w" "0 \<le> w"
  then have "py_int x \<le> py_int (real_of_int w)" by (intro py_int_mono)
  also have "py_int (real_of_int w) = w" using \<open>0 \<le> w\<close> by (simp add: py_int_def)
  finally show ?thesis .
qed

lemma get_retry_after_stored:
  "get_retry_after s now ip =
     (case stored s ip of [] \<Rightarrow> 0
      | r # rs \<Rightarrow> max 0 (py_int (real_of_int (window_seconds s) - (now - fold min rs r))))"
  by (simp add: get_retry_after_def stored_def Let_def split: option.splits list.splits)

lemma retry_after_range:
  assumes w0: "0 \<le> window_seconds s"
    and bound: "\<forall>ts \<in> set (stored s ip). ts \<le> tau"
  shows "0 \<le> get_retry_after s tau ip \<and> get_retry_after s tau ip \<le> window_seconds s"
proof (cases "stored s ip")
  case Nil
  then show ?thesis using w0 by (simp add: get_retry_after_stored)
next
  case (Cons r rs)
  have "fold min rs r \<in> set (stored s ip)" using fold_min_in [of rs r] by (simp add: Cons)
  then have "fold min rs r \<le> tau" using bound by blast
  then have "real_of_int (window_seconds s) - (tau - fold min rs r) \<le> real_of_int (window_seconds s)"
    by simp
  then have "py_int (real_of_int (window_seconds s) - (tau - fold min rs r)) \<le> window_seconds s"
    using w0 by (rule py_int_le)
  then show ?thesis using w0 by (simp add: get_retry_after_stored Cons)
qed

lemma retry_after_antimono:
  "tau \<le> tau' \<Longrightarrow> get_retry_after s tau' ip \<le> get_retry_after s tau ip"
proof (cases "stored s ip")
  case Nil
  then show ?thesis by (simp add: get_retry_after_stored)
next
  case (Cons r rs)
  assume "tau \<le> tau'"
  then have "py_int (real_of_int (window_seconds s) - (tau' - fold min rs r))
      \<le> py_int (real_of_int (window_seconds s) - (tau - fold min rs r))"
    by (intro py_int_mono) simp
  then show ?thesis by (simp add: get_retry_after_stored Cons)
qed

text \<open>
  Claim C6 (rate limiter admission). Started with an empty log, with \<open>N = max_requests\<close>
  not negative and the calls served in the order of their clock readings: for every IP
  and every time \<open>t\<close>, at most \<open>N\<close> of the admitted calls of that IP have their time in
  the window \<open>(t - W, t]\<close>. In any state, a call that finds \<open>N\<close> or more times of the IP
  in the window returns \<open>(False, 0)\<close> and stores the evicted list as it is; any other call
  stores that list with the current time appended and returns \<open>True\<close> with \<open>N\<close> minus the
  length of the new list. After a denied call at time \<open>now\<close> (with \<open>W\<close> not negative),
  \<open>get_retry_after\<close> read at any later time is between \<open>0\<close> and \<open>W\<close>, and read later still
  it is not larger.
\<close>

theorem rate_limiter_admission:
  fixes self :: rate_limiter and t now tau tau' :: real
  assumes fresh: "request_log self = Map.empty"
    and n0: "0 \<le> max_requests self"
    and w0: "0 \<le> window_seconds self"
    and clock: "sorted (map fst calls)"
  shows "int (length (filter (\<lambda>c. snd c = ip \<and> t - real_of_int (window_seconds self) < fst c \<and> fst c \<le> t)
            (admitted self calls))) \<le> max_requests self \<and>
    fst (is_allowed s now ip) =
      (if max_requests s \<le> int (length (filter (\<lambda>ts. now - real_of_int (window_seconds s) < ts) (stored s ip)))
       then (False, 0)
       else (True, max_requests s -
               int (length (filter (\<lambda>ts. now - real_of_int (window_seconds s) < ts) (stored s ip) @ [now])))) \<and>
    stored (snd (is_allowed s now ip)) ip =
      (if max_requests s \<le> int (length (filter (\<lambda>ts. now - real_of_int (window_seconds s) < ts) (stored s ip)))
       then filter (\<lambda>ts. now - real_of_int (window_seconds s) < ts) (stored s ip)
       else filter (\<lambda>ts. now - real_of_int (window_seconds s) < ts) (stored s ip) @ [now]) \<and>
    ((\<forall>c \<in> set calls. fst c \<le> now) \<and> \<not> fst (fst (is_allowed (run self calls) now ip)) \<and>
       now \<le> tau \<and> tau \<le> tau' \<longrightarrow>
       0 \<le> get_retry_after (snd (is_allowed (run self calls) now ip)) tau ip \<and>
       get_retry_after (snd (is_allowed (run self calls) now ip)) tau ip \<le> window_seconds self \<and>
       get_retry_after (snd (is_allowed (run self calls) now ip)) tau' ip
         \<le> get_retry_after (snd (is_allowed (run self calls) now ip)) tau ip)"
proof (intro conjI impI)
  let ?W = "real_of_int (window_seconds self)"
  have none: "stored self ip = []" by (simp add: stored_def fresh)
  have "\<forall>t. int (length (filter (\<lambda>ts. t - ?W < ts \<and> ts \<le> t)
            ([] @ map fst (filter (\<lambda>c. snd c = ip) (admitted self calls))))) \<le> max_requests self"
  proof (cases calls)
    case Nil
    then show ?thesis using n0 by simp
  next
    case (Cons c cs)
    have first: "\<forall>c' \<in> set calls. fst c \<le> fst c'" using clock by (auto simp: Cons)
    show ?thesis
      by (rule windows_run [OF clock first]) (simp_all add: none n0)
  qed
  then have "int (length (filter (\<lambda>ts. t - ?W < ts \<and> ts \<le> t)
            (map fst (filter (\<lambda>c. snd c = ip) (admitted self calls))))) \<le> max_requests self"
    by simp
  moreover have "length (filter (\<lambda>ts. t - ?W < ts \<and> ts \<le> t) (map fst (filter (\<lambda>c. snd c = ip) xs)))
      = length (filter (\<lambda>c. snd c = ip \<and> t - ?W < fst c \<and> fst c \<le> t) xs)" for xs :: "(real \<times> string) list"
    by (induction xs) auto
  ultimately show "int (length (filter (\<lambda>c. snd c = ip \<and> t - ?W < fst c \<and> fst c \<le> t)
            (admitted self calls))) \<le> max_requests self"
    by simp
next
  show "fst (is_allowed s now ip) =
      (if max_requests s \<le> int (length (filter (\<lambda>ts. now - real_of_int (window_seconds s) < ts) (stored s ip)))
       then (False, 0)
       else (True, max_requests s -
               int (length (filter (\<lambda>ts. now - real_of_int (window_seconds s) < ts) (stored s ip) @ [now]))))"
    by (simp add: is_allowed_def Let_def stored_def)
next
  show "stored (snd (is_allowed s now ip)) ip =
      (if max_requests s \<le> int (length (filter (\<lambda>ts. now - real_of_int (window_seconds s) < ts) (stored s ip)))
       then filter (\<lambda>ts. now - real_of_int (window_seconds s) < ts) (stored s ip)
       else filter (\<lambda>ts. now - real_of_int (window_seconds s) < ts) (stored s ip) @ [now])"
    by (simp add: is_allowed_def Let_def stored_def)
next
  assume a: "(\<forall>c \<in> set calls. fst c \<le> now) \<and> \<not> fst (fst (is_allowed (run self calls) now ip)) \<and>
       now \<le> tau \<and> tau \<le> tau'"
  let ?s = "run self calls"
  let ?s' = "snd (is_allowed ?s now ip)"
  have w: "window_seconds ?s' = window_seconds self"
    by (simp add: is_allowed_fields run_fields)
  have "ts \<le> tau" if "ts \<in> set (stored ?s' ip)" for ts
  proof -
    from that have "ts \<in> set (stored ?s ip)" using a by (simp add: stored_after)
    then have "ts \<in> set (stored self ip) \<or> ts \<in> fst ` set calls" by (rule stored_run_from)
    then have "ts \<in> fst ` set calls" by (simp add: stored_def fresh)
    then have "ts \<le> now" using a by auto
    then show ?thesis using a by simp
  qed
  then have bound: "\<forall>ts \<in> set (stored ?s' ip). ts \<le> tau" by blast
  from retry_after_range [OF _ bound] w0 w
  show "0 \<le> get_retry_after ?s' tau ip" "get_retry_after ?s' tau ip \<le> window_seconds self"
    by simp_all
  from a show "get_retry_after ?s' tau' ip \<le> get_retry_after ?s' tau ip"
    by (intro retry_after_antimono) simp
qed

theorem rate_limiter_admission_witness:
  "admitted \<lparr>max_requests = 1, window_seconds = 10, request_log = Map.empty\<rparr>
      [(0, ''10.1.1.1''), (4, ''10.1.1.1''), (11, ''10.1.1.1'')] = [(0, ''10.1.1.1''), (11, ''10.1.1.1'')] \<and>
   int (length (filter (\<lambda>c. snd c = ''10.1.1.1'' \<and> 11 - real_of_int 10 < fst c \<and> fst c \<le> 11)
      (admitted \<lparr>max_requests = 1, window_seconds = 10, request_log = Map.empty\<rparr>
         [(0, ''10.1.1.1''), (4, ''10.1.1.1''), (11, ''10.1.1.1'')]))) \<le> 1 \<and>
   get_retry_after (snd (is_allowed (run \<lparr>max_requests = 1, window_seconds = 10, request_log = Map.empty\<rparr>
        [(0, ''10.1.1.1'')]) 4 ''10.1.1.1'')) 5 ''10.1.1.1'' \<le> 10"
proof -
  let ?l = "\<lparr>max_requests = 1, window_seconds = 10, request_log = Map.empty\<rparr>"
  have adm: "admitted ?l [(0, ''10.1.1.1''), (4, ''10.1.1.1''), (11, ''10.1.1.1'')]
      = [(0, ''10.1.1.1''), (11, ''10.1.1.1'')]"
    by (simp add: is_allowed_def Let_def)
  have f: "request_log ?l = Map.empty" and n: "0 \<le> max_requests ?l" and w: "0 \<le> window_seconds ?l"
    by simp_all
  have c3: "sorted (map fst [(0::real, ''10.1.1.1''), (4, ''10.1.1.1''), (11, ''10.1.1.1'')])"
    and c1: "sorted (map fst [(0::real, ''10.1.1.1'')])"
    by simp_all
  have win: "int (length (filter (\<lambda>c. snd c = ''10.1.1.1'' \<and> 11 - real_of_int (window_seconds ?l) < fst c \<and> fst c \<le> 11)
      (admitted ?l [(0, ''10.1.1.1''), (4, ''10.1.1.1''), (11, ''10.1.1.1'')]))) \<le> max_requests ?l"
    using rate_limiter_admission [where self = ?l and t = 11 and ip = "''10.1.1.1''", OF f n w c3]
    by (rule conjunct1)
  have denied: "(\<forall>c \<in> set [(0::real, ''10.1.1.1'')]. fst c \<le> 4) \<and>
      \<not> fst (fst (is_allowed (run ?l [(0, ''10.1.1.1'')]) 4 ''10.1.1.1'')) \<and> (4::real) \<le> 5 \<and> (5::real) \<le> 5"
    by (simp add: is_allowed_def Let_def)
  have retry: "get_retry_after (snd (is_allowed (run ?l [(0, ''10.1.1.1'')]) 4 ''10.1.1.1'')) 5 ''10.1.1.1''
      \<le> window_seconds ?l"
    using rate_limiter_admission [where self = ?l and now = 4 and tau = 5 and tau' = 5
        and ip = "''10.1.1.1''", OF f n w c1] denied
    by blast
  from adm win retry show ?thesis by simp
qed

section \<open>Properties of the SSRF guard and of the handler\<close>

lemma of_char_lower_char:
  "(of_char (lower_char c) :: nat) =
     (if (65 \<le> (of_char c :: nat) \<and> (of_char c :: nat) \<le> 90) \<or>
         (192 \<le> (of_char c :: nat) \<and> (of_char c :: nat) \<le> 222 \<and> (of_char c :: nat) \<noteq> 215)
      then of_char c + 32 else of_char c)"
  using of_char_lt [of c] by (auto simp: lower_char_def Let_def)



lemma lower_append: "lower (a @ b) = lower a @ lower b"
  by (simp add: lower_def)

text \<open>A character that is no letter is the lower case of itself only.\<close>

lemma lower_char_eq_iff:
  assumes "(of_char x :: nat) < 65 \<or> (90 < (of_char x :: nat) \<and> (of_char x :: nat) < 97) \<or>
      (122 < (of_char x :: nat) \<and> (of_char x :: nat) < 192)"
  shows "lower_char c = x \<longleftrightarrow> c = x"
proof -
  have "lower_char c = x \<longleftrightarrow> (of_char (lower_char c) :: nat) = of_char x"
    by (simp only: of_char_eq_iff)
  also have "\<dots> \<longleftrightarrow> (of_char c :: nat) = of_char x"
    using assms by (auto simp: of_char_lower_char)
  also have "\<dots> \<longleftrightarrow> c = x" by (simp only: of_char_eq_iff)
  finally show ?thesis .
qed


lemma lower_takeWhile:
  assumes "(of_char x :: nat) < 65 \<or> (90 < (of_char x :: nat) \<and> (of_char x :: nat) < 97) \<or>
      (122 < (of_char x :: nat) \<and> (of_char x :: nat) < 192)"
  shows "takeWhile (\<lambda>c. c \<noteq> x) (lower s) = lower (takeWhile (\<lambda>c. c \<noteq> x) s)"
  using lower_char_eq_iff [OF assms] by (induction s) (auto simp: lower_def)












text \<open>
  Claim C10 (admin and local host guard), as amended. For a request whose \<open>Host\<close> header
  equals \<open>ADMIN_HOST\<close> or begins with \<open>0.0.0.0\<close> or \<open>localhost\<close>: once past the rate limit
  block the handler answers 404 "Not found" with no further step, whatever the sites and
  the resolver are; so with rate limiting off (or no limiter) the handler takes no step
  at all, and with the limiter admitting the request the admission check is its only
  step. A request that the limiter denies is answered 429 after the admission check,
  whatever its host.
\<close>

theorem admin_guard_after_admission:
  assumes host: "host = (case host_header req of Some h \<Rightarrow> h | None \<Rightarrow> [])"
    and client: "client_ip = (case client_host req of Some c \<Rightarrow> c | None \<Rightarrow> ''unknown'')"
  shows
   "(host = ADMIN_HOST cfg \<or> startswith host ''0.0.0.0'' \<or> startswith host ''localhost'' \<longrightarrow>
       after_admission cfg resolve sites req steps lm =
         (Respond \<lparr>status_code = 404, content = ''Not found'', headers = [], set_session_cookie = None\<rparr>,
          steps, lm) \<and>
       ((\<not> ENABLE_RATE_LIMITING cfg \<or> limiter = None) \<longrightarrow>
          proxy_handler cfg limiter now later resolve sites req =
            (Respond \<lparr>status_code = 404, content = ''Not found'', headers = [], set_session_cookie = None\<rparr>,
             [], limiter)) \<and>
       (ENABLE_RATE_LIMITING cfg \<and> limiter = Some rl \<and> fst (fst (is_allowed rl now client_ip)) \<longrightarrow>
          proxy_handler cfg limiter now later resolve sites req =
            (Respond \<lparr>status_code = 404, content = ''Not found'', headers = [], set_session_cookie = None\<rparr>,
             [Rate_limit_check], Some (snd (is_allowed rl now client_ip))))) \<and>
    (ENABLE_RATE_LIMITING cfg \<and> limiter = Some rl \<and> \<not> fst (fst (is_allowed rl now client_ip)) \<longrightarrow>
       proxy_handler cfg limiter now later resolve sites req =
         (Respond \<lparr>status_code = 429,
            content = ''Rate limit exceeded. Try again in '' @
              show_int (get_retry_after (snd (is_allowed rl now client_ip)) later client_ip) @ '' seconds.'',
            headers =
              [(''Retry-After'', show_int (get_retry_after (snd (is_allowed rl now client_ip)) later client_ip)),
               (''X-RateLimit-Limit'', show_int (RATE_LIMIT_REQUESTS cfg)),
               (''X-RateLimit-Remaining'', ''0''),
               (''X-RateLimit-Reset'', show_int (get_retry_after (snd (is_allowed rl now client_ip)) later client_ip))],
            set_session_cookie = None\<rparr>,
          [Rate_limit_check], Some (snd (is_allowed rl now client_ip))))"
proof (intro conjI impI)
  assume guard: "host = ADMIN_HOST cfg \<or> startswith host ''0.0.0.0'' \<or> startswith host ''localhost''"
  have a: "after_admission cfg resolve sites req st l =
           (Respond \<lparr>status_code = 404, content = ''Not found'', headers = [], set_session_cookie = None\<rparr>,
            st, l)" for st l
    using guard unfolding host by (simp add: after_admission_def)
  show "after_admission cfg resolve sites req steps lm =
         (Respond \<lparr>status_code = 404, content = ''Not found'', headers = [], set_session_cookie = None\<rparr>,
          steps, lm)" by (rule a)
  show "proxy_handler cfg limiter now later resolve sites req =
            (Respond \<lparr>status_code = 404, content = ''Not found'', headers = [], set_session_cookie = None\<rparr>,
             [], limiter)" if "\<not> ENABLE_RATE_LIMITING cfg \<or> limiter = None"
    using that by (auto simp: a proxy_handler_def Let_def)
  show "proxy_handler cfg limiter now later resolve sites req =
            (Respond \<lparr>status_code = 404, content = ''Not found'', headers = [], set_session_cookie = None\<rparr>,
             [Rate_limit_check], Some (snd (is_allowed rl now client_ip)))"
    if "ENABLE_RATE_LIMITING cfg \<and> limiter = Some rl \<and> fst (fst (is_allowed rl now client_ip))"
    using that unfolding client by (auto simp: a proxy_handler_def Let_def split: prod.splits)
next
  assume "ENABLE_RATE_LIMITING cfg \<and> limiter = Some rl \<and> \<not> fst (fst (is_allowed rl now client_ip))"
  then show "proxy_handler cfg limiter now later resolve sites req =
         (Respond \<lparr>status_code = 429,
            content = ''Rate limit exceeded. Try again in '' @
              show_int (get_retry_after (snd (is_allowed rl now client_ip)) later client_ip) @ '' seconds.'',
            headers =
              [(''Retry-After'', show_int (get_retry_after (snd (is_allowed rl now client_ip)) later client_ip)),
               (''X-RateLimit-Limit'', show_int (RATE_LIMIT_REQUESTS cfg)),
               (''X-RateLimit-Remaining'', ''0''),
               (''X-RateLimit-Reset'', show_int (get_retry_after (snd (is_allowed rl now client_ip)) later client_ip))],
            set_session_cookie = None\<rparr>,
          [Rate_limit_check], Some (snd (is_allowed rl now client_ip)))"
    unfolding client by (auto simp: proxy_handler_def Let_def split: prod.splits)
qed


text \<open>The amended claim at three calls of the handler for \<open>localhost\<close>, which is also the
  mirror root of an enabled site: with no limiter, with the limiter of the default
  settings at its first request, and for \<open>mirror.com\<close> with a limiter that admits nothing.\<close>

theorem admin_guard_after_admission_witness:
  "proxy_handler example_settings None 100 100 (\<lambda>host. None) [example_site\<lparr>mirror_root := ''localhost''\<rparr>]
     \<lparr>host_header = Some ''localhost'', client_host = Some ''10.0.0.7'', path_param = ''x'',
       url_query = [], session_cookie = None\<rparr>
   = (Respond \<lparr>status_code = 404, content = ''Not found'', headers = [], set_session_cookie = None\<rparr>,
      [], None) \<and>
   fst (proxy_handler example_settings (Some (startup_rate_limiter example_settings)) 100 100 (\<lambda>host. None)
     [example_site\<lparr>mirror_root := ''localhost''\<rparr>]
     \<lparr>host_header = Some ''localhost'', client_host = Some ''10.0.0.7'', path_param = ''x'',
       url_query = [], session_cookie = None\<rparr>)
   = Respond \<lparr>status_code = 404, content = ''Not found'', headers = [], set_session_cookie = None\<rparr> \<and>
   fst (snd (proxy_handler example_settings (Some (startup_rate_limiter example_settings)) 100 100 (\<lambda>host. None)
     [example_site\<lparr>mirror_root := ''localhost''\<rparr>]
     \<lparr>host_header = Some ''localhost'', client_host = Some ''10.0.0.7'', path_param = ''x'',
       url_query = [], session_cookie = None\<rparr>))
   = [Rate_limit_check] \<and>
   fst (proxy_handler (example_settings\<lparr>RATE_LIMIT_REQUESTS := 0\<rparr>)
     (Some (startup_rate_limiter (example_settings\<lparr>RATE_LIMIT_REQUESTS := 0\<rparr>))) 100 100 (\<lambda>host. None)
     [example_site]
     \<lparr>host_header = Some ''mirror.com'', client_host = Some ''10.0.0.7'', path_param = ''x'',
       url_query = [], session_cookie = None\<rparr>)
   = Respond \<lparr>status_code = 429, content = ''Rate limit exceeded. Try again in 0 seconds.'',
        headers = [(''Retry-After'', ''0''), (''X-RateLimit-Limit'', ''0''),
                   (''X-RateLimit-Remaining'', ''0''), (''X-RateLimit-Reset'', ''0'')],
        set_session_cookie = None\<rparr>"
proof -
  let ?req = "\<lparr>host_header = Some ''localhost'', client_host = Some ''10.0.0.7'', path_param = ''x'',
       url_query = [], session_cookie = None\<rparr>"
  let ?req' = "\<lparr>host_header = Some ''mirror.com'', client_host = Some ''10.0.0.7'', path_param = ''x'',
       url_query = [], session_cookie = None\<rparr>"
  let ?rl = "startup_rate_limiter example_settings"
  let ?cfg = "example_settings\<lparr>RATE_LIMIT_REQUESTS := 0\<rparr>"
  have h: "''localhost'' = (case host_header ?req of Some h \<Rightarrow> h | None \<Rightarrow> [])" by simp
  have c: "''10.0.0.7'' = (case client_host ?req of Some c \<Rightarrow> c | None \<Rightarrow> ''unknown'')" by simp
  have h': "''mirror.com'' = (case host_header ?req' of Some h \<Rightarrow> h | None \<Rightarrow> [])" by simp
  have c': "''10.0.0.7'' = (case client_host ?req' of Some c \<Rightarrow> c | None \<Rightarrow> ''unknown'')" by simp
  have g: "''localhost'' = ADMIN_HOST example_settings \<or> startswith ''localhost'' ''0.0.0.0'' \<or>
      startswith ''localhost'' ''localhost''"
    by (simp add: startswith_def)
  have en: "ENABLE_RATE_LIMITING example_settings" "ENABLE_RATE_LIMITING ?cfg"
    by (simp_all add: example_settings_def)
  have al: "fst (fst (is_allowed ?rl 100 ''10.0.0.7''))"
    by (simp add: is_allowed_def startup_rate_limiter_def init_rate_limiter_def example_settings_def)
  have dn: "\<not> fst (fst (is_allowed (startup_rate_limiter ?cfg) 100 ''10.0.0.7''))"
    by (simp add: is_allowed_def startup_rate_limiter_def init_rate_limiter_def example_settings_def)
  have ra: "get_retry_after (snd (is_allowed (startup_rate_limiter ?cfg) 100 ''10.0.0.7'')) 100 ''10.0.0.7'' = 0"
    by (simp add: is_allowed_def get_retry_after_def startup_rate_limiter_def init_rate_limiter_def
        example_settings_def)
  have lim: "RATE_LIMIT_REQUESTS ?cfg = 0" by simp
  have z: "show_int 0 = ''0''" by (simp add: show_int_def)
  note t1 = admin_guard_after_admission [where cfg = example_settings and limiter = None
      and now = 100 and later = 100 and resolve = "\<lambda>host. None"
      and sites = "[example_site\<lparr>mirror_root := ''localhost''\<rparr>]", OF h c]
  note t2 = admin_guard_after_admission [where cfg = example_settings and limiter = "Some ?rl" and rl = ?rl
      and now = 100 and later = 100 and resolve = "\<lambda>host. None"
      and sites = "[example_site\<lparr>mirror_root := ''localhost''\<rparr>]", OF h c]
  note t3 = admin_guard_after_admission [where cfg = ?cfg and limiter = "Some (startup_rate_limiter ?cfg)"
      and rl = "startup_rate_limiter ?cfg"
      and now = 100 and later = 100 and resolve = "\<lambda>host. None"
      and sites = "[example_site]", OF h' c']
  from t1 g have a: "proxy_handler example_settings None 100 100 (\<lambda>host. None)
      [example_site\<lparr>mirror_root := ''localhost''\<rparr>] ?req
   = (Respond \<lparr>status_code = 404, content = ''Not found'', headers = [], set_session_cookie = None\<rparr>,
      [], None)" by blast
  from t2 g en al have b: "proxy_handler example_settings (Some ?rl) 100 100 (\<lambda>host. None)
      [example_site\<lparr>mirror_root := ''localhost''\<rparr>] ?req
   = (Respond \<lparr>status_code = 404, content = ''Not found'', headers = [], set_session_cookie = None\<rparr>,
      [Rate_limit_check], Some (snd (is_allowed ?rl 100 ''10.0.0.7'')))" by blast
  from t3 en dn have d: "proxy_handler ?cfg (Some (startup_rate_limiter ?cfg)) 100 100 (\<lambda>host. None)
      [example_site] ?req'
   = (Respond \<lparr>status_code = 429,
            content = ''Rate limit exceeded. Try again in '' @
              show_int (get_retry_after (snd (is_allowed (startup_rate_limiter ?cfg) 100 ''10.0.0.7'')) 100 ''10.0.0.7'') @ '' seconds.'',
            headers =
              [(''Retry-After'', show_int (get_retry_after (snd (is_allowed (startup_rate_limiter ?cfg) 100 ''10.0.0.7'')) 100 ''10.0.0.7'')),
               (''X-RateLimit-Limit'', show_int (RATE_LIMIT_REQUESTS ?cfg)),
               (''X-RateLimit-Remaining'', ''0''),
               (''X-RateLimit-Reset'', show_int (get_retry_after (snd (is_allowed (startup_rate_limiter ?cfg) 100 ''10.0.0.7'')) 100 ''10.0.0.7''))],
            set_session_cookie = None\<rparr>,
          [Rate_limit_check], Some (snd (is_allowed (startup_rate_limiter ?cfg) 100 ''10.0.0.7'')))" by blast
  show ?thesis
    unfolding a b d ra lim z by simp
qed

text \<open>
  Claim C10 as stated fails: the rate limit block comes before the guard. With one
  request allowed per window, the second request for \<open>localhost:8000\<close> of a client is
  answered 429, one second after its first was answered 404.
\<close>

theorem admin_host_rate_limited:
  "fst (proxy_handler (example_settings\<lparr>RATE_LIMIT_REQUESTS := 1\<rparr>)
          (Some (startup_rate_limiter (example_settings\<lparr>RATE_LIMIT_REQUESTS := 1\<rparr>)))
          100 100 (\<lambda>h. None) [example_site]
          \<lparr>host_header = Some ''localhost:8000'', client_host = Some ''10.0.0.7'', path_param = ''admin'',
            url_query = [], session_cookie = None\<rparr>)
     = Respond \<lparr>status_code = 404, content = ''Not found'', headers = [], set_session_cookie = None\<rparr> \<and>
   fst (proxy_handler (example_settings\<lparr>RATE_LIMIT_REQUESTS := 1\<rparr>)
          (snd (snd (proxy_handler (example_settings\<lparr>RATE_LIMIT_REQUESTS := 1\<rparr>)
             (Some (startup_rate_limiter (example_settings\<lparr>RATE_LIMIT_REQUESTS := 1\<rparr>)))
             100 100 (\<lambda>h. None) [example_site]
             \<lparr>host_header = Some ''localhost:8000'', client_host = Some ''10.0.0.7'', path_param = ''admin'',
               url_query = [], session_cookie = None\<rparr>)))
          101 101 (\<lambda>h. None) [example_site]
          \<lparr>host_header = Some ''localhost:8000'', client_host = Some ''10.0.0.7'', path_param = ''admin'',
            url_query = [], session_cookie = None\<rparr>)
     = Respond \<lparr>status_code = 429, content = ''Rate limit exceeded. Try again in 59 seconds.'',
          headers = [(''Retry-After'', ''59''), (''X-RateLimit-Limit'', ''1''),
                     (''X-RateLimit-Remaining'', ''0''), (''X-RateLimit-Reset'', ''59'')],
          set_session_cookie = None\<rparr>"
  by (simp add: proxy_handler_def after_admission_def startswith_def example_settings_def
      startup_rate_limiter_def init_rate_limiter_def is_allowed_def get_retry_after_def Let_def
      py_int_def show_int_def)

text \<open>
  Claim C2 (forward mapping) at the request \<open>GET http://mirror.com/search?q=a.b\<close>: the first
  segment of the path, \<open>search\<close>, has no dot, so the claim gives
  \<open>https://source.com/search?q=a.b\<close>. The handler appends the query to the path before it
  calls \<open>build_origin_url\<close>, which then finds the dot of the query in the first segment and
  takes \<open>search?q=a.b\<close> for an external host. Without the query the same path maps as
  claimed.
\<close>

theorem query_dot_misroutes:
  "request_origin_url ''mirror.com'' ''search'' ''q=a.b'' example_site = ''https://search?q=a.b/'' \<and>
   request_origin_url ''mirror.com'' ''search'' [] example_site = ''https://source.com/search''"
  by code_simp

end
